theory Spec2Isabelle
  imports Complex_Main "HOL-Library.Sublist" "HOL-Library.Char_ord" "HOL-Library.List_Lexorder"
begin

chapter \<open>Ultimate-Audiobooks: a shallow embedding of the batch pipeline's pure core\<close>

text \<open>
  The development follows the Python sources under \<^verbatim>\<open>src/Main\<close>. Each section first
  transcribes the functions it needs (keeping their names, their branch order and their
  checks) and then states and proves the properties.

  Conventions used throughout:
  \<^item> Python \<^verbatim>\<open>str\<close> is modelled as \<^typ>\<open>string\<close>; the model covers ASCII text.
  \<^item> Python \<^verbatim>\<open>int\<close> is \<^typ>\<open>int\<close>; a Python \<^verbatim>\<open>float\<close> is a rational number, and every
    floating-point operation rounds its exact result to the nearest binary64 value.
  \<^item> Exceptions, \<^verbatim>\<open>sys.exit\<close> and early returns are values of result datatypes.
  \<^item> Module-level mutable state is passed explicitly.
\<close>

section \<open>Main.py: mode dispatch and the process exit status\<close>

datatype log_level = DEBUG | INFO | WARNING | ERROR | CRITICAL

type_synonym log_entry = "log_level \<times> string"

text \<open>The three recursive-mode flags of the settings object read by \<^verbatim>\<open>processBooks\<close>.\<close>

record mode_settings =
  recurseFetch :: bool
  recurseCombine :: bool
  recursePreserve :: bool

datatype batch_mode = RecursivelyFetchBatch | RecursivelyCombineBatch
  | RecursivelyPreserveBatch | SingleLevelBatch

text \<open>
  How a call ends: it returns, it raises \<^verbatim>\<open>SystemExit\<close> with the argument given to
  \<^verbatim>\<open>sys.exit\<close> (\<open>None\<close> for a bare \<^verbatim>\<open>sys.exit()\<close>), or it raises another exception.
\<close>

datatype outcome = Returned | SystemExit "int option" | Raised

datatype call = Batch batch_mode | PrintSummary

text \<open>
  \<^verbatim>\<open>processBooks\<close> (Main.py, lines 46-66). The behaviour of the four batch functions of
  Processing.py is the parameter \<open>batch\<close>. The result is the log written by
  \<^verbatim>\<open>processBooks\<close> itself, the calls it made, and how it ended.
\<close>

definition processBooks ::
  "mode_settings \<Rightarrow> (batch_mode \<Rightarrow> outcome) \<Rightarrow> log_entry list \<times> call list \<times> outcome" where
  "processBooks settings batch =
    (if (recurseFetch settings \<and> recurseCombine settings)
        \<or> (recurseFetch settings \<and> recursePreserve settings)
        \<or> (recurseCombine settings \<and> recursePreserve settings)
     then ([(CRITICAL,
        ''Incompatible processing modes selected. Enable only one processing mode. Exiting...'')],
        [], SystemExit None)
     else
       (let m = (if recurseFetch settings then RecursivelyFetchBatch
                 else if recurseCombine settings then RecursivelyCombineBatch
                 else if recursePreserve settings then RecursivelyPreserveBatch
                 else SingleLevelBatch)
        in (case batch m of
              Returned \<Rightarrow> ([], [Batch m, PrintSummary], Returned)
            | other \<Rightarrow> ([], [Batch m], other))))"

text \<open>
  The exit status of the script (Main.py, lines 116-138): a normal return ends with status
  0; a \<^verbatim>\<open>SystemExit\<close> is re-raised unchanged, and the interpreter turns its argument into
  the status (no argument is status 0, an integer is that integer, truncated to a byte
  by the operating system); any other exception is logged and ends in \<^verbatim>\<open>sys.exit(1)\<close>.
\<close>

fun script_exit_status :: "outcome \<Rightarrow> int" where
  "script_exit_status Returned = 0"
| "script_exit_status (SystemExit None) = 0"
| "script_exit_status (SystemExit (Some n)) = n mod 256"
| "script_exit_status Raised = 1"

section \<open>Util.py: the cached GET and its retry loop\<close>

record page =
  status_code :: int
  body :: string

record cache_entry =
  content :: "string option"
  time :: rat

type_synonym url_cache = "string \<rightharpoonup> cache_entry"

definition cache_ttl :: rat where
  "cache_ttl = 3600 * 24"

text \<open>\<^verbatim>\<open>_get_cached\<close>: the cached body when the entry is younger than the TTL.\<close>

definition get_cached :: "url_cache \<Rightarrow> rat \<Rightarrow> string \<Rightarrow> string option" where
  "get_cached cache now url =
    (case cache url of
       None \<Rightarrow> None
     | Some entry \<Rightarrow> if now - time entry < cache_ttl then content entry else None)"

definition set_cached :: "url_cache \<Rightarrow> rat \<Rightarrow> string \<Rightarrow> string \<Rightarrow> url_cache" where
  "set_cached cache now url text = cache(url \<mapsto> \<lparr>content = Some text, time = now\<rparr>)"

text \<open>
  The state of the \<^verbatim>\<open>while True\<close> loop of \<^verbatim>\<open>GETpage\<close>: the variable \<^verbatim>\<open>timer\<close>, the
  arguments of the \<^verbatim>\<open>time.sleep\<close> calls made so far, and the number of requests sent.
  \<^verbatim>\<open>timer\<close> starts as the integer 2 and \<^verbatim>\<open>timer *= 1.5\<close> makes it the float 3.0; both
  are exact, so a rational carries the value.
\<close>

record loop_state =
  timer :: rat
  slept :: "rat list"
  attempts :: nat

text \<open>
  The loop (Util.py, lines 733-744). \<open>req k\<close> is the outcome of the k-th call of
  \<^verbatim>\<open>requests.get\<close>: \<open>None\<close> when it raises, the response otherwise. The loop has no
  bound of its own, so the model takes fuel: \<open>None\<close> means that the loop is still running
  when the fuel is used up; \<open>Some (Some p, s)\<close> is the \<^verbatim>\<open>break\<close> with a response and
  \<open>Some (None, s)\<close> the \<^verbatim>\<open>return None\<close> of the abort branch.
\<close>

fun GETpage_loop ::
  "nat \<Rightarrow> (nat \<Rightarrow> page option) \<Rightarrow> loop_state \<Rightarrow> (page option \<times> loop_state) option" where
  "GETpage_loop 0 req s = None"
| "GETpage_loop (Suc fuel) req s =
    (case req (attempts s) of
       Some p \<Rightarrow> Some (Some p, s\<lparr>attempts := Suc (attempts s)\<rparr>)
     | None \<Rightarrow>
        if timer s = 2
        then GETpage_loop fuel req
               (s\<lparr>timer := timer s * (3 / 2), slept := slept s @ [timer s],
                  attempts := Suc (attempts s)\<rparr>)
        else if timer s \<ge> 10
        then Some (None, s\<lparr>attempts := Suc (attempts s)\<rparr>)
        else GETpage_loop fuel req (s\<lparr>attempts := Suc (attempts s)\<rparr>))"

datatype get_result = CachedResponse string | Response page | NoResult

text \<open>
  \<^verbatim>\<open>GETpage\<close> (Util.py, lines 722-761) returns the result and the updated cache;
  \<open>None\<close> when the retry loop does not finish within the fuel.
\<close>

definition GETpage ::
  "nat \<Rightarrow> url_cache \<Rightarrow> rat \<Rightarrow> (nat \<Rightarrow> page option) \<Rightarrow> string \<Rightarrow> bool
    \<Rightarrow> (get_result \<times> url_cache) option" where
  "GETpage fuel cache now req url use_cache =
    (case (if use_cache then get_cached cache now url else None) of
       Some cached \<Rightarrow> Some (CachedResponse cached, cache)
     | None \<Rightarrow>
        (case GETpage_loop fuel req \<lparr>timer = 2, slept = [], attempts = 0\<rparr> of
           None \<Rightarrow> None
         | Some (None, s) \<Rightarrow> Some (NoResult, cache)
         | Some (Some p, s) \<Rightarrow>
             if status_code p \<noteq> 200 then Some (NoResult, cache)
             else if use_cache then Some (Response p, set_cached cache now url (body p))
             else Some (Response p, cache)))"

section \<open>Python text primitives\<close>

text \<open>
  Whitespace as \<^verbatim>\<open>str.strip\<close>, \<^verbatim>\<open>str.split\<close> and the regular-expression class \<^verbatim>\<open>\s\<close>
  see it on ASCII text: tab, line feed, vertical tab, form feed, carriage return, the
  four separators 0x1C-0x1F and the space.
\<close>

definition is_space :: "char \<Rightarrow> bool" where
  "is_space c = (c \<in> set [CHR 0x09, CHR 0x0A, CHR 0x0B, CHR 0x0C, CHR 0x0D,
                           CHR 0x1C, CHR 0x1D, CHR 0x1E, CHR 0x1F, CHR '' ''])"

text \<open>The class \<^verbatim>\<open>\w\<close> on ASCII text: letters, digits and the underscore.\<close>

definition is_word :: "char \<Rightarrow> bool" where
  "is_word c = (c \<in> set (''abcdefghijklmnopqrstuvwxyz'' @ ''ABCDEFGHIJKLMNOPQRSTUVWXYZ''
                           @ ''0123456789_''))"

definition is_digit :: "char \<Rightarrow> bool" where
  "is_digit c = (c \<in> set ''0123456789'')"

definition lower_char :: "char \<Rightarrow> char" where
  "lower_char c =
    (case map_of (zip ''ABCDEFGHIJKLMNOPQRSTUVWXYZ'' ''abcdefghijklmnopqrstuvwxyz'') c of
       Some l \<Rightarrow> l | None \<Rightarrow> c)"

definition upper_char :: "char \<Rightarrow> char" where
  "upper_char c =
    (case map_of (zip ''abcdefghijklmnopqrstuvwxyz'' ''ABCDEFGHIJKLMNOPQRSTUVWXYZ'') c of
       Some u \<Rightarrow> u | None \<Rightarrow> c)"

definition lower :: "string \<Rightarrow> string" where
  "lower s = map lower_char s"

definition upper :: "string \<Rightarrow> string" where
  "upper s = map upper_char s"

definition lstrip :: "string \<Rightarrow> string" where
  "lstrip s = dropWhile is_space s"

definition rstrip :: "string \<Rightarrow> string" where
  "rstrip s = rev (dropWhile is_space (rev s))"

definition strip :: "string \<Rightarrow> string" where
  "strip s = rstrip (lstrip s)"

text \<open>\<^verbatim>\<open>s.split()\<close>: the maximal runs of non-whitespace characters, in order.\<close>

fun split_acc :: "string \<Rightarrow> string \<Rightarrow> string list" where
  "split_acc cur [] = (if cur = [] then [] else [cur])"
| "split_acc cur (c # cs) =
    (if is_space c then (if cur = [] then split_acc [] cs else cur # split_acc [] cs)
     else split_acc (cur @ [c]) cs)"

definition split_ws :: "string \<Rightarrow> string list" where
  "split_ws s = split_acc [] s"

text \<open>\<^verbatim>\<open>s.split(c)\<close> for a one-character separator: never empty, one piece more than separators.\<close>

fun split_on_acc :: "char \<Rightarrow> string \<Rightarrow> string \<Rightarrow> string list" where
  "split_on_acc sep cur [] = [cur]"
| "split_on_acc sep cur (c # cs) =
    (if c = sep then cur # split_on_acc sep [] cs else split_on_acc sep (cur @ [c]) cs)"

definition split_on :: "char \<Rightarrow> string \<Rightarrow> string list" where
  "split_on sep s = split_on_acc sep [] s"

text \<open>\<^verbatim>\<open>text.split(sep)[0]\<close>: the text before the first occurrence of \<open>sep\<close>.\<close>

fun before_first :: "string \<Rightarrow> string \<Rightarrow> string" where
  "before_first sep [] = []"
| "before_first sep (c # cs) = (if prefix sep (c # cs) then [] else c # before_first sep cs)"

text \<open>\<^verbatim>\<open>str(n)\<close> for an integer.\<close>

fun digits :: "nat \<Rightarrow> string" where
  "digits n =
    (if n < 10 then [''0123456789'' ! n]
     else digits (n div 10) @ [''0123456789'' ! (n mod 10)])"

definition str_int :: "int \<Rightarrow> string" where
  "str_int i = (if i < 0 then CHR ''-'' # digits (nat (- i)) else digits (nat i))"

subsection \<open>Regular expressions\<close>

text \<open>
  The patterns of the sources use literals (all of them under \<^verbatim>\<open>re.IGNORECASE\<close>),
  character classes, concatenation, alternation, \<^verbatim>\<open>?\<close>, \<^verbatim>\<open>*\<close> and \<^verbatim>\<open>+\<close> on a
  character class, and \<^verbatim>\<open>$\<close>. \<open>rmatch r s\<close> lists the remainders of \<open>s\<close> after each
  way of matching \<open>r\<close> at the start of \<open>s\<close>, in the order in which Python's backtracking
  matcher tries them (greedy first), so the head of the list is the match Python reports.
  \<open>Eol\<close> is \<^verbatim>\<open>$\<close> without \<^verbatim>\<open>re.MULTILINE\<close>: the end of the text, or just before a final
  line feed.
\<close>

datatype rx = Eps | ChI char | Cls "char \<Rightarrow> bool" | Cat rx rx | Or rx rx | Opt rx
  | StarCls "char \<Rightarrow> bool" | Eol

fun rmatch :: "rx \<Rightarrow> string \<Rightarrow> string list" where
  "rmatch Eps s = [s]"
| "rmatch (ChI c) s =
    (case s of [] \<Rightarrow> [] | x # xs \<Rightarrow> if lower_char x = lower_char c then [xs] else [])"
| "rmatch (Cls p) s = (case s of [] \<Rightarrow> [] | x # xs \<Rightarrow> if p x then [xs] else [])"
| "rmatch (Cat a b) s = concat (map (rmatch b) (rmatch a s))"
| "rmatch (Or a b) s = rmatch a s @ rmatch b s"
| "rmatch (Opt a) s = rmatch a s @ [s]"
| "rmatch (StarCls p) s = map (\<lambda>k. drop k s) (rev [0..<Suc (length (takeWhile p s))])"
| "rmatch Eol s = (if s = [] \<or> s = [CHR 0x0A] then [s] else [])"

definition lit :: "string \<Rightarrow> rx" where
  "lit s = foldr (\<lambda>c r. Cat (ChI c) r) s Eps"

fun alt :: "rx list \<Rightarrow> rx" where
  "alt [] = Cls (\<lambda>c. False)"
| "alt [r] = r"
| "alt (r # rs) = Or r (alt rs)"

definition cats :: "rx list \<Rightarrow> rx" where
  "cats rs = foldr Cat rs Eps"

definition ws0 :: rx where "ws0 = StarCls is_space"

definition ws1 :: rx where "ws1 = Cat (Cls is_space) (StarCls is_space)"

definition one_of :: "string \<Rightarrow> rx" where
  "one_of cs = Cls (\<lambda>c. c \<in> set cs)"

text \<open>\<^verbatim>\<open>re.match(r, s)\<close> and \<^verbatim>\<open>re.search(r, s)\<close>, as truth values.\<close>

definition re_match :: "rx \<Rightarrow> string \<Rightarrow> bool" where
  "re_match r s = (rmatch r s \<noteq> [])"

fun re_search :: "rx \<Rightarrow> string \<Rightarrow> bool" where
  "re_search r [] = (rmatch r [] \<noteq> [])"
| "re_search r (c # cs) = (rmatch r (c # cs) \<noteq> [] \<or> re_search r cs)"

text \<open>
  \<^verbatim>\<open>re.sub(r, repl, s)\<close> for a literal replacement: scan from the left, replace the
  first match found at the current position and go on behind it. No pattern of the
  sources matches the empty text, and an empty match is treated as no match.
\<close>

function re_sub :: "rx \<Rightarrow> string \<Rightarrow> string \<Rightarrow> string" where
  "re_sub r repl s =
    (let ms = rmatch r s in
     if ms \<noteq> [] \<and> length (hd ms) < length s then repl @ re_sub r repl (hd ms)
     else (case s of [] \<Rightarrow> [] | c # cs \<Rightarrow> c # re_sub r repl cs))"
  by pat_completeness auto
termination
  by (relation "measure (\<lambda>(r, repl, s). length s)") auto

text \<open>\<^verbatim>\<open>re.split(r, s)\<close> for a pattern without groups: the texts between the matches.\<close>

function re_split_acc :: "rx \<Rightarrow> string \<Rightarrow> string \<Rightarrow> string list" where
  "re_split_acc r cur s =
    (let ms = rmatch r s in
     if ms \<noteq> [] \<and> length (hd ms) < length s then cur # re_split_acc r [] (hd ms)
     else (case s of [] \<Rightarrow> [cur] | c # cs \<Rightarrow> re_split_acc r (cur @ [c]) cs))"
  by pat_completeness auto
termination
  by (relation "measure (\<lambda>(r, cur, s). length s)") auto

declare re_sub.simps [simp del] re_split_acc.simps [simp del]

definition re_split :: "rx \<Rightarrow> string \<Rightarrow> string list" where
  "re_split r s = re_split_acc r [] s"

section \<open>Util.py: names for paths\<close>

definition double_quote :: char where
  "double_quote = CHR 0x22"


section \<open>BookStatus.py: the existing-output probe\<close>











section \<open>Python exceptions\<close>

text \<open>The exceptions that the modelled functions raise.\<close>

datatype py_error = IndexError | KeyError | ValueError | AttributeError

section \<open>BookStatus.py: the skip and fail ledgers\<close>

type_synonym path = string

text \<open>
  Paths are path strings with \<^verbatim>\<open>/\<close> as the separator; \<^verbatim>\<open>Path.parts\<close> are the pieces
  between the separators, and \<^verbatim>\<open>Path.name\<close> is the last of them.
\<close>

definition path_parts :: "path \<Rightarrow> string list" where
  "path_parts p = split_on (CHR ''/'') p"

definition path_name :: "path \<Rightarrow> string" where
  "path_name p = last (path_parts p)"

definition TEMP_FOLDER_NAME :: string where
  "TEMP_FOLDER_NAME = ''Ultimate temp''"

definition isInTempFolder :: "path \<Rightarrow> bool" where
  "isInTempFolder item = (TEMP_FOLDER_NAME \<in> set (path_parts item))"

text \<open>
  What the two ledger functions do besides updating the lists, in the order in which
  they do it: log lines, the fail marker, the deletion of a temporary item and the move
  into the skip or fail directory. The file system itself is not modelled; an effect
  records that the call was made.
\<close>

datatype effect =
    LogAlreadySkipped path
  | LogSkipping path "string option"
  | LogAlreadyFailed path
  | LogFailed path "string option"
  | CreateFailMarker path "string option" "string list option"
  | DeleteTempFile path
  | MoveToSkips path
  | MoveToFails path

text \<open>
  The module state: \<^verbatim>\<open>_skips\<close>, \<^verbatim>\<open>_fails\<close>, \<^verbatim>\<open>_originalPaths\<close>, and the effects so far.
\<close>

record bookstatus =
  skips :: "path list"
  fails :: "path list"
  originalPaths :: "path \<rightharpoonup> path"
  effects :: "effect list"

text \<open>
  The field of the settings object that the ledger reads. The parameter \<open>settings\<close> of
  the functions below is what \<^verbatim>\<open>getSettings()\<close> returns: the settings object of the run, or
  \<^verbatim>\<open>None\<close> as long as none has been set.
\<close>

record ledger_settings =
  move :: bool

text \<open>
  A call of a ledger function changes the module state and then either returns or lets
  an exception escape; the state changes made before the exception stay. The result of a
  call is the pair of the outcome (\<open>Inl\<close> the exception, \<open>Inr\<close> the value returned) and
  the state after it.
\<close>

type_synonym 'a ledger_call = "(py_error + 'a) \<times> bookstatus"

text \<open>
  \<^verbatim>\<open>Path.resolve\<close> depends on the working directory and on symbolic links; it is the
  parameter \<open>resolve\<close>.
\<close>

definition setOriginalPath :: "(path \<Rightarrow> path) \<Rightarrow> bookstatus \<Rightarrow> path \<Rightarrow> path \<Rightarrow> bookstatus" where
  "setOriginalPath resolve st currentPath originalPath =
    st\<lparr>originalPaths := (originalPaths st)(resolve currentPath \<mapsto> resolve originalPath)\<rparr>"

text \<open>
  \<^verbatim>\<open>_getRelativePath\<close> (BookStatus.py, lines 102-128) loads the settings when the module
  has none yet, and then reads \<^verbatim>\<open>settings.input\<close>. Without a settings object that is an
  \<^verbatim>\<open>AttributeError\<close>, which the \<^verbatim>\<open>except ValueError\<close> of the function does not catch. The
  path it returns is only used in a log line, so the model keeps the outcome alone.
\<close>

definition getRelativePath :: "ledger_settings option \<Rightarrow> py_error + unit" where
  "getRelativePath settings =
    (case settings of None \<Rightarrow> Inl AttributeError | Some s \<Rightarrow> Inr ())"

text \<open>\<^verbatim>\<open>_deleteTempFile\<close>: only an item inside the temp folder is deleted.\<close>

definition deleteTempFile :: "bookstatus \<Rightarrow> path \<Rightarrow> bookstatus" where
  "deleteTempFile st item =
    (if isInTempFolder item then st\<lparr>effects := effects st @ [DeleteTempFile item]\<rparr> else st)"

text \<open>The test \<^verbatim>\<open>settings and settings.move\<close>.\<close>

definition move_mode :: "ledger_settings option \<Rightarrow> bool" where
  "move_mode settings = (case settings of None \<Rightarrow> False | Some s \<Rightarrow> move s)"

text \<open>
  \<^verbatim>\<open>skipBook\<close> (BookStatus.py, lines 317-353). The item is appended to \<^verbatim>\<open>_skips\<close> before
  \<^verbatim>\<open>_getRelativePath\<close> is called, so the entry stays when that call raises; the log line,
  the deletion and the move come after it.
\<close>

definition skipBook ::
  "(path \<Rightarrow> path) \<Rightarrow> ledger_settings option \<Rightarrow> bookstatus \<Rightarrow> path \<Rightarrow> string option
    \<Rightarrow> unit ledger_call" where
  "skipBook resolve settings st item reason =
    (if item \<in> set (skips st)
     then (Inr (), st\<lparr>effects := effects st @ [LogAlreadySkipped item]\<rparr>)
     else
       (let originalItem = (case originalPaths st (resolve item) of
                              None \<Rightarrow> item | Some original \<Rightarrow> original);
            st1 = st\<lparr>skips := skips st @ [originalItem]\<rparr>
        in (case getRelativePath settings of
              Inl e \<Rightarrow> (Inl e, st1)
            | Inr relPath \<Rightarrow>
               (let st2 = st1\<lparr>effects := effects st1 @ [LogSkipping originalItem reason]\<rparr>;
                    st3 = deleteTempFile st2 item
                in (Inr (),
                    if move_mode settings \<and> \<not> isInTempFolder item
                    then st3\<lparr>effects := effects st3 @ [MoveToSkips item]\<rparr>
                    else st3)))))"

text \<open>
  \<^verbatim>\<open>failBook\<close> (BookStatus.py, lines 355-393). Here too the append to \<^verbatim>\<open>_fails\<close> comes
  before \<^verbatim>\<open>_getRelativePath\<close>; the log line and the fail marker come after it.
\<close>

definition failBook ::
  "(path \<Rightarrow> path) \<Rightarrow> ledger_settings option \<Rightarrow> bookstatus \<Rightarrow> path \<Rightarrow> string option
    \<Rightarrow> string list option \<Rightarrow> unit ledger_call" where
  "failBook resolve settings st item reason files =
    (let originalItem = (case originalPaths st (resolve item) of
                           None \<Rightarrow> item | Some original \<Rightarrow> original)
     in if originalItem \<in> set (fails st)
        then (Inr (), st\<lparr>effects := effects st @ [LogAlreadyFailed originalItem]\<rparr>)
        else
          (let st1 = st\<lparr>fails := fails st @ [originalItem]\<rparr>
           in (case getRelativePath settings of
                 Inl e \<Rightarrow> (Inl e, st1)
               | Inr relPath \<Rightarrow>
                  (let st2 = st1\<lparr>effects := effects st1 @ [LogFailed originalItem reason,
                                                      CreateFailMarker originalItem reason files]\<rparr>;
                       st3 = deleteTempFile st2 item
                   in (Inr (),
                       if move_mode settings \<and> \<not> isInTempFolder item
                       then st3\<lparr>effects := effects st3 @ [MoveToFails originalItem]\<rparr>
                       else st3)))))"

text \<open>
  A statement that follows a call: when the call has raised, the exception goes on to the
  caller; when it has returned, the enclosing function returns \<open>v\<close>.
\<close>

definition then_return :: "unit ledger_call \<Rightarrow> 'a \<Rightarrow> 'a ledger_call" where
  "then_return called v =
    (case called of (Inl e, st) \<Rightarrow> (Inl e, st) | (Inr u, st) \<Rightarrow> (Inr v, st))"

definition empty_status :: bookstatus where
  "empty_status = \<lparr>skips = [], fails = [], originalPaths = Map.empty, effects = []\<rparr>"

section \<open>Util.py: listing the audio files of a folder\<close>

text \<open>
  What \<^verbatim>\<open>getAudioFiles\<close> can observe of the folder: the paths that \<^verbatim>\<open>glob\<close> and
  \<^verbatim>\<open>rglob\<close> enumerate (the entries of the folder, and of the whole tree below it), in
  the order of the enumeration. A pattern is matched against the name of a path, with
  case, as on a POSIX file system: \<^verbatim>\<open>*.m4*\<close> matches the names that contain \<^verbatim>\<open>.m4\<close>,
  \<^verbatim>\<open>*.flac\<close> those that end with \<^verbatim>\<open>.flac\<close>.
\<close>

record audio_folder =
  glob_all :: "path list"
  rglob_all :: "path list"

definition glob_contains :: "string \<Rightarrow> path list \<Rightarrow> path list" where
  "glob_contains part paths = filter (\<lambda>p. sublist part (path_name p)) paths"

definition glob_suffix :: "string \<Rightarrow> path list \<Rightarrow> path list" where
  "glob_suffix ext paths = filter (\<lambda>p. suffix ext (path_name p)) paths"

text \<open>The four \<^verbatim>\<open>files.extend\<close> calls (Util.py, lines 2119-2128).\<close>

definition audio_matches :: "audio_folder \<Rightarrow> bool \<Rightarrow> path list" where
  "audio_matches folderPath recurse =
    (let listing = (if recurse then rglob_all folderPath else glob_all folderPath)
     in glob_contains ''.m4'' listing @ glob_contains ''.mp'' listing
        @ glob_suffix ''.flac'' listing @ glob_suffix ''.wav'' listing)"

text \<open>\<^verbatim>\<open>xs[:b]\<close> for a Python integer \<open>b\<close>: a negative bound counts from the end.\<close>

definition slice_to :: "'a list \<Rightarrow> int \<Rightarrow> 'a list" where
  "slice_to xs b = (if 0 \<le> b then take (nat b) xs else take (nat (int (length xs) + b)) xs)"

datatype audio_files = NoAudioFiles | AudioFiles "path list"

text \<open>
  \<^verbatim>\<open>getAudioFiles\<close> (Util.py, lines 2104-2143). \<open>NoAudioFiles\<close> is the return value
  \<^verbatim>\<open>-1\<close>. The sort is stable and compares the lower-cased path strings.
\<close>

definition getAudioFiles :: "audio_folder \<Rightarrow> int \<Rightarrow> bool \<Rightarrow> int \<Rightarrow> audio_files" where
  "getAudioFiles folderPath batch recurse offset =
    (let files = sort_key lower (audio_matches folderPath recurse)
     in if length files = 0 then NoAudioFiles
        else
          (let files = (if offset > 0 then drop (nat offset) files else files)
           in if batch = - 1 \<or> int (length files) \<le> batch then AudioFiles files
              else AudioFiles (slice_to files batch)))"


section \<open>Python floats\<close>

text \<open>
  A finite binary64 value is a rational number. \<open>fl\<close> rounds a rational to the nearest
  binary64 value, ties to the even significand: the unit in the last place of a number
  below \<open>2^53\<close> is \<open>2^-k\<close> for the least \<open>k\<close> that scales it to at least \<open>2^52\<close> (at
  most 1074, the subnormal range), and \<open>2^k\<close> for the least \<open>k\<close> that scales a larger
  number below \<open>2^53\<close>. Overflow to infinity (beyond \<open>2^1024\<close>) is outside the model.
\<close>

definition round_half_even :: "rat \<Rightarrow> int" where
  "round_half_even z =
    (let f = \<lfloor>z\<rfloor>; d = z - of_int f
     in if d < 1 / 2 then f else if 1 / 2 < d then f + 1 else if even f then f else f + 1)"

function up_scale :: "nat \<Rightarrow> rat \<Rightarrow> nat" where
  "up_scale k y = (if 1074 \<le> k \<or> 2 ^ 52 \<le> y then k else up_scale (Suc k) (2 * y))"
  by pat_completeness auto
termination
  by (relation "measure (\<lambda>(k, y). 1074 - k)") auto

function down_scale :: "nat \<Rightarrow> rat \<Rightarrow> nat" where
  "down_scale k y = (if y < 2 ^ 53 then k else down_scale (Suc k) (y / 2))"
  by pat_completeness auto
termination
proof (relation "measure (\<lambda>(k, y). nat \<lfloor>y\<rfloor>)")
  show "wf (measure (\<lambda>(k, y). nat \<lfloor>y\<rfloor>))" by simp
next
  fix k :: nat and y :: rat
  assume a: "\<not> y < 2 ^ 53"
  then have y1: "1 \<le> y" by simp
  have "\<lfloor>y / 2\<rfloor> < \<lfloor>y\<rfloor>"
  proof -
    have "y / 2 < of_int \<lfloor>y\<rfloor>"
    proof -
      have "y < of_int \<lfloor>y\<rfloor> + 1" by linarith
      moreover have "2 \<le> y" using a by simp
      ultimately show ?thesis by linarith
    qed
    then show ?thesis by (simp add: floor_less_iff)
  qed
  moreover have "0 < \<lfloor>y\<rfloor>" using y1 by simp
  ultimately show "((Suc k, y / 2), (k, y)) \<in> measure (\<lambda>(k, y). nat \<lfloor>y\<rfloor>)"
    by simp
qed

declare up_scale.simps [simp del] down_scale.simps [simp del]

definition ulp :: "rat \<Rightarrow> rat" where
  "ulp a = (if a < 2 ^ 53 then 1 / 2 ^ up_scale 0 a else 2 ^ down_scale 0 a)"

definition fl :: "rat \<Rightarrow> rat" where
  "fl x =
    (if x = 0 then 0
     else (let a = \<bar>x\<bar>; u = ulp a in sgn x * (of_int (round_half_even (a / u)) * u)))"

text \<open>
  The operations of Python on floats: each is the exact operation followed by rounding;
  \<^verbatim>\<open>a / b\<close> on two integers is correctly rounded as well; \<^verbatim>\<open>int(x)\<close> truncates towards
  zero; \<^verbatim>\<open>round(x)\<close> rounds to the nearest integer, ties to even.
\<close>

definition fmul :: "rat \<Rightarrow> rat \<Rightarrow> rat" where
  "fmul x y = fl (x * y)"

definition fadd :: "rat \<Rightarrow> rat \<Rightarrow> rat" where
  "fadd x y = fl (x + y)"

definition true_div :: "int \<Rightarrow> int \<Rightarrow> rat" where
  "true_div a b = fl (of_int a / of_int b)"

definition float_of_int :: "int \<Rightarrow> rat" where
  "float_of_int i = fl (of_int i)"

definition int_of_float :: "rat \<Rightarrow> int" where
  "int_of_float x = (if 0 \<le> x then \<lfloor>x\<rfloor> else \<lceil>x\<rceil>)"

text \<open>The literals \<^verbatim>\<open>0.6\<close> and \<^verbatim>\<open>0.4\<close>.\<close>

definition c06 :: rat where
  "c06 = fl (6 / 10)"

definition c04 :: rat where
  "c04 = fl (4 / 10)"

section \<open>Util.py: the match-confidence scorer\<close>

text \<open>
  \<^verbatim>\<open>normalizeForComparison\<close> (Util.py, lines 1248-1261); the argument may be \<^verbatim>\<open>None\<close>.
  Of the three subtitle separators, the third contains an en dash, which ASCII text
  cannot hold; the loop over the separators is written out for the other two.
\<close>

definition cut_at :: "string \<Rightarrow> string \<Rightarrow> string" where
  "cut_at sep text = (if sublist sep text then before_first sep text else text)"

definition normalizeForComparison :: "string option \<Rightarrow> string" where
  "normalizeForComparison text =
    (case text of
       None \<Rightarrow> []
     | Some t \<Rightarrow>
        if t = [] then []
        else
          (let t1 = lower t;
               t2 = cut_at '' - '' (cut_at '': '' t1);
               t3 = re_sub (Cls (\<lambda>c. \<not> is_word c \<and> \<not> is_space c)) '' '' t2
           in strip (re_sub ws1 '' '' t3)))"

text \<open>
  \<^verbatim>\<open>int((overlap / total) * 100) if total > 0 else 0\<close> for the two word sets.
\<close>

definition word_overlap_percent :: "string set \<Rightarrow> string set \<Rightarrow> int" where
  "word_overlap_percent fileWords audibleWords =
    (let overlap = card (fileWords \<inter> audibleWords);
         total = card (fileWords \<union> audibleWords)
     in if total > 0
        then int_of_float (fmul (true_div (int overlap) (int total)) (float_of_int 100))
        else 0)"

text \<open>The title block (Util.py, lines 1275-1290), on the normalized titles.\<close>

definition title_score :: "string \<Rightarrow> string \<Rightarrow> int" where
  "title_score fileTitleNorm audibleTitleNorm =
    (if fileTitleNorm \<noteq> [] \<and> audibleTitleNorm \<noteq> []
     then
       (if fileTitleNorm = audibleTitleNorm then 100
        else if sublist fileTitleNorm audibleTitleNorm \<or> sublist audibleTitleNorm fileTitleNorm
        then 85
        else
          (let fileWords = set (split_ws fileTitleNorm);
               audibleWords = set (split_ws audibleTitleNorm)
           in if fileWords \<noteq> {} \<and> audibleWords \<noteq> {}
              then word_overlap_percent fileWords audibleWords
              else 0))
     else 0)"

text \<open>
  \<^verbatim>\<open>s.split()[-1] if s else ""\<close>: the last word, an \<^verbatim>\<open>IndexError\<close> when a non-empty text
  has no word.
\<close>

definition last_word :: "string \<Rightarrow> py_error + string" where
  "last_word s =
    (if s = [] then Inr []
     else (case split_ws s of [] \<Rightarrow> Inl IndexError | w # ws \<Rightarrow> Inr (last (w # ws))))"

text \<open>The author block (Util.py, lines 1293-1314), on the normalized authors.\<close>

definition author_score :: "string \<Rightarrow> string \<Rightarrow> py_error + int" where
  "author_score fileAuthorNorm audibleAuthorNorm =
    (if fileAuthorNorm \<noteq> [] \<and> audibleAuthorNorm \<noteq> []
     then
       (if fileAuthorNorm = audibleAuthorNorm then Inr 100
        else if sublist fileAuthorNorm audibleAuthorNorm
                \<or> sublist audibleAuthorNorm fileAuthorNorm
        then Inr 90
        else
          (case last_word fileAuthorNorm of
             Inl e \<Rightarrow> Inl e
           | Inr fileLastName \<Rightarrow>
              (case last_word audibleAuthorNorm of
                 Inl e \<Rightarrow> Inl e
               | Inr audibleLastName \<Rightarrow>
                  if fileLastName \<noteq> [] \<and> audibleLastName \<noteq> []
                     \<and> fileLastName = audibleLastName
                  then Inr 70
                  else
                    (let fileWords = set (split_ws fileAuthorNorm);
                         audibleWords = set (split_ws audibleAuthorNorm)
                     in if fileWords \<noteq> {} \<and> audibleWords \<noteq> {}
                        then Inr (word_overlap_percent fileWords audibleWords)
                        else Inr 0))))
     else Inr 0)"

text \<open>The combination (Util.py, lines 1316-1325).\<close>

definition combined_score :: "string \<Rightarrow> string \<Rightarrow> int \<Rightarrow> int \<Rightarrow> int" where
  "combined_score fileAuthorNorm fileTitleNorm titleScore authorScore =
    (if fileAuthorNorm = [] \<and> fileTitleNorm = [] then 0
     else if fileAuthorNorm = [] then titleScore
     else if fileTitleNorm = [] then authorScore
     else int_of_float (fadd (fmul (float_of_int titleScore) c06)
                             (fmul (float_of_int authorScore) c04)))"

text \<open>
  \<^verbatim>\<open>calculateMatchConfidence\<close> (Util.py, lines 1264-1328): the pair of the combined score
  and the details text, or the exception that escapes.
\<close>

definition calculateMatchConfidence ::
  "string option \<Rightarrow> string option \<Rightarrow> string option \<Rightarrow> string option
    \<Rightarrow> py_error + (int \<times> string)" where
  "calculateMatchConfidence fileAuthor fileTitle audibleAuthor audibleTitle =
    (let fileAuthorNorm = normalizeForComparison fileAuthor;
         fileTitleNorm = normalizeForComparison fileTitle;
         audibleAuthorNorm = normalizeForComparison audibleAuthor;
         audibleTitleNorm = normalizeForComparison audibleTitle;
         titleScore = title_score fileTitleNorm audibleTitleNorm
     in (case author_score fileAuthorNorm audibleAuthorNorm of
           Inl e \<Rightarrow> Inl e
         | Inr authorScore \<Rightarrow>
             Inr (combined_score fileAuthorNorm fileTitleNorm titleScore authorScore,
                  ''title:'' @ str_int titleScore @ ''% author:'' @ str_int authorScore
                    @ ''%'')))"

text \<open>
  The combination as the specification words it:
  \<^verbatim>\<open>round(title*0.6 + author*0.4)\<close>.
\<close>

definition combined_score_rounded :: "int \<Rightarrow> int \<Rightarrow> int" where
  "combined_score_rounded titleScore authorScore =
    round_half_even (fadd (fmul (float_of_int titleScore) c06)
                          (fmul (float_of_int authorScore) c04))"


section \<open>FileMerger.py: the chapter manifest\<close>

text \<open>
  A piece as \<^verbatim>\<open>createTempFiles\<close> reads it: the file name and \<^verbatim>\<open>info.length\<close>, the
  duration in seconds, a float.
\<close>

record piece =
  filename :: string
  info_length :: rat

text \<open>
  \<^verbatim>\<open>runningTime\<close> starts as the integer \<^verbatim>\<open>0\<close> and becomes a float with the first
  addition; the two print differently.
\<close>

datatype pynum = PyInt int | PyFloat rat

fun to_float :: "pynum \<Rightarrow> rat" where
  "to_float (PyInt i) = float_of_int i"
| "to_float (PyFloat x) = x"

text \<open>\<^verbatim>\<open>runningTime += p.info.length * 1000\<close>.\<close>

definition advance :: "pynum \<Rightarrow> piece \<Rightarrow> pynum" where
  "advance runningTime p =
    PyFloat (fadd (to_float runningTime) (fmul (info_length p) (float_of_int 1000)))"

definition apostrophe :: char where
  "apostrophe = CHR 0x27"

definition backslash :: char where
  "backslash = CHR 0x5C"

definition newline :: char where
  "newline = CHR 0x0A"

text \<open>\<^verbatim>\<open>p.filename.replace("'", "'\\''")\<close>.\<close>

definition escape_apostrophes :: "string \<Rightarrow> string" where
  "escape_apostrophes s =
    concat (map (\<lambda>c. if c = apostrophe then [apostrophe, backslash, apostrophe, apostrophe]
                       else [c]) s)"

text \<open>The line written to the concatenation list for one piece.\<close>

definition concat_file_line :: "piece \<Rightarrow> string" where
  "concat_file_line p =
    ''file '' @ [apostrophe] @ escape_apostrophes (filename p) @ [apostrophe, newline]"

text \<open>
  What one pass of the loop writes: the line of the concatenation list and the values of
  one \<^verbatim>\<open>[CHAPTER]\<close> block.
\<close>

record chapter_entry =
  concat_line :: string
  chapter_start :: pynum
  chapter_end :: pynum
  chapter_number :: int

text \<open>
  The \<^verbatim>\<open>for p in pieces\<close> loop (FileMerger.py, lines 731-747); a \<^verbatim>\<open>None\<close> entry is
  skipped without advancing the time or the chapter count.
\<close>

fun createTempFiles_loop :: "pynum \<Rightarrow> int \<Rightarrow> piece option list \<Rightarrow> chapter_entry list" where
  "createTempFiles_loop runningTime chapCount [] = []"
| "createTempFiles_loop runningTime chapCount (None # ps) =
    createTempFiles_loop runningTime chapCount ps"
| "createTempFiles_loop runningTime chapCount (Some p # ps) =
    \<lparr>concat_line = concat_file_line p,
     chapter_start = runningTime,
     chapter_end = advance runningTime p,
     chapter_number = chapCount\<rparr>
    # createTempFiles_loop (advance runningTime p) (chapCount + 1) ps"

text \<open>
  \<^verbatim>\<open>f"{x}"\<close> for a number: the decimal digits of an integer; the \<^verbatim>\<open>repr\<close> of a float
  (the shortest decimal text that reads back as the same float, always with a
  fractional part or an exponent) is the parameter \<open>float_repr\<close>.
\<close>

fun format_num :: "(rat \<Rightarrow> string) \<Rightarrow> pynum \<Rightarrow> string" where
  "format_num float_repr (PyInt i) = str_int i"
| "format_num float_repr (PyFloat x) = float_repr x"

text \<open>The five writes of one block (FileMerger.py, lines 741-746).\<close>

definition chapter_block :: "(rat \<Rightarrow> string) \<Rightarrow> chapter_entry \<Rightarrow> string list" where
  "chapter_block float_repr c =
    [''[CHAPTER]'' @ [newline],
     ''TIMEBASE=1/1000'' @ [newline],
     ''START='' @ format_num float_repr (chapter_start c) @ [newline],
     ''END='' @ format_num float_repr (chapter_end c) @ [newline],
     ''title=Chapter '' @ str_int (chapter_number c) @ [newline, newline]]"

text \<open>
  \<^verbatim>\<open>createTempFiles\<close> (FileMerger.py, lines 720-754): what is written to the concatenation
  list and to the chapter manifest, write by write. (The function itself returns the
  names of the two temporary files.)
\<close>

definition createTempFiles ::
  "(rat \<Rightarrow> string) \<Rightarrow> piece option list \<Rightarrow> string list \<times> string list" where
  "createTempFiles float_repr pieces =
    (let chapters = createTempFiles_loop (PyInt 0) 1 pieces
     in (map concat_line chapters,
         ('';FFMETADATA1'' @ [newline]) # concat (map (chapter_block float_repr) chapters)))"

text \<open>
  The cumulative offset after a list of pieces, as the loop computes it: the pieces'
  durations times 1000, added up from the left in float arithmetic, from the integer 0.
\<close>

definition running_time :: "piece list \<Rightarrow> pynum" where
  "running_time ps = foldl advance (PyInt 0) ps"

text \<open>The entries of a piece list that are not \<^verbatim>\<open>None\<close>.\<close>

definition present :: "'a option list \<Rightarrow> 'a list" where
  "present xs = List.map_filter (\<lambda>x. x) xs"

section \<open>FileMerger.py: ordering the chapter files\<close>

text \<open>
  A track as the ordering functions read it: the file name and the tag dictionary of
  the easy-tag interface, from a key to a list of texts.
\<close>

record track =
  track_filename :: string
  tags :: "string \<rightharpoonup> string list"

text \<open>
  \<^verbatim>\<open>int(s)\<close> for a text: surrounding whitespace is dropped, a sign is allowed, and the
  digits may be grouped by single underscores; anything else is a \<^verbatim>\<open>ValueError\<close>.
\<close>

fun digit_groups_ok :: "bool \<Rightarrow> string \<Rightarrow> bool" where
  "digit_groups_ok after_digit [] = after_digit"
| "digit_groups_ok after_digit (c # cs) =
    (if is_digit c then digit_groups_ok True cs
     else if c = CHR ''_'' \<and> after_digit then digit_groups_ok False cs
     else False)"

definition digit_value :: "char \<Rightarrow> int" where
  "digit_value c = int (of_char c) - 48"

definition digits_value :: "string \<Rightarrow> int" where
  "digits_value s = foldl (\<lambda>acc c. 10 * acc + digit_value c) 0 (filter is_digit s)"

definition py_int :: "string \<Rightarrow> py_error + int" where
  "py_int s =
    (let t = strip s;
         negative = (t \<noteq> [] \<and> hd t = CHR ''-'');
         digits_text = (if t \<noteq> [] \<and> (hd t = CHR ''-'' \<or> hd t = CHR ''+'') then tl t else t)
     in if digit_groups_ok False digits_text
        then Inr (if negative then - digits_value digits_text else digits_value digits_text)
        else Inl ValueError)"

text \<open>
  \<^verbatim>\<open>int(track['discnumber'][0])\<close> and \<^verbatim>\<open>int(track['tracknumber'][0].split('/')[0])\<close>:
  a missing key is a \<^verbatim>\<open>KeyError\<close>, an empty value list an \<^verbatim>\<open>IndexError\<close>.
\<close>

definition disc_number :: "track \<Rightarrow> py_error + int" where
  "disc_number t =
    (case tags t ''discnumber'' of
       None \<Rightarrow> Inl KeyError
     | Some [] \<Rightarrow> Inl IndexError
     | Some (v # vs) \<Rightarrow> py_int v)"

definition track_number :: "track \<Rightarrow> py_error + int" where
  "track_number t =
    (case tags t ''tracknumber'' of
       None \<Rightarrow> Inl KeyError
     | Some [] \<Rightarrow> Inl IndexError
     | Some (v # vs) \<Rightarrow> py_int (hd (split_on (CHR ''/'') v)))"

text \<open>
  The position that the Python index \<open>i\<close> denotes in a list: a negative index counts
  from the end; \<open>None\<close> is the \<^verbatim>\<open>IndexError\<close>.
\<close>

definition py_index :: "'a list \<Rightarrow> int \<Rightarrow> nat option" where
  "py_index xs i =
    (let n = int (length xs); j = (if i < 0 then n + i else i)
     in if 0 \<le> j \<and> j < n then Some (nat j) else None)"

text \<open>
  How a loop of \<^verbatim>\<open>orderByTrackNumber\<close> stops early: by one of its \<^verbatim>\<open>return []\<close>
  statements, or by an exception that the function catches (and answers with \<^verbatim>\<open>[]\<close>).
\<close>

datatype stop = EarlyReturn | Caught py_error

text \<open>The single-disc loop (FileMerger.py, lines 91-102).\<close>

fun single_disk_loop ::
  "track list \<Rightarrow> track option list \<Rightarrow> stop + track option list" where
  "single_disk_loop [] chapters = Inr chapters"
| "single_disk_loop (t # ts) chapters =
    (case tags t ''tracknumber'' of
       None \<Rightarrow> Inl EarlyReturn
     | Some vs \<Rightarrow>
        (case track_number t of
           Inl e \<Rightarrow> Inl (Caught e)
         | Inr trackNumber \<Rightarrow>
            (case py_index chapters trackNumber of
               None \<Rightarrow> Inl (Caught IndexError)
             | Some j \<Rightarrow>
                if chapters ! j = None
                then single_disk_loop ts (chapters[j := Some t])
                else Inl EarlyReturn)))"

text \<open>
  One pass of the inner \<^verbatim>\<open>for\<close> loop of the multi-disc branch, for the disc \<open>disk\<close> and
  the offset fixed at the start of the pass (FileMerger.py, lines 77-84).
\<close>

fun disk_pass ::
  "int \<Rightarrow> int \<Rightarrow> track list \<Rightarrow> track option list \<times> int
    \<Rightarrow> stop + (track option list \<times> int)" where
  "disk_pass disk offset [] (chapters, tracksDone) = Inr (chapters, tracksDone)"
| "disk_pass disk offset (t # ts) (chapters, tracksDone) =
    (case disc_number t of
       Inl e \<Rightarrow> Inl (Caught e)
     | Inr diskNumber \<Rightarrow>
        (case track_number t of
           Inl e \<Rightarrow> Inl (Caught e)
         | Inr trackNumber \<Rightarrow>
            if diskNumber = disk
            then (case py_index chapters (trackNumber + offset) of
                    None \<Rightarrow> Inl (Caught IndexError)
                  | Some j \<Rightarrow> disk_pass disk offset ts (chapters[j := Some t], tracksDone + 1))
            else disk_pass disk offset ts (chapters, tracksDone)))"

definition maxDisk :: int where
  "maxDisk = 10"

text \<open>The \<^verbatim>\<open>while\<close> loop over the discs and the test that follows it (lines 74-88).\<close>

function multi_disk_loop ::
  "track list \<Rightarrow> int \<Rightarrow> track option list \<times> int \<Rightarrow> stop + track option list" where
  "multi_disk_loop tracks disk (chapters, tracksDone) =
    (if tracksDone < int (length tracks) \<and> disk \<le> maxDisk
     then (case disk_pass disk tracksDone tracks (chapters, tracksDone) of
             Inl e \<Rightarrow> Inl e
           | Inr state \<Rightarrow> multi_disk_loop tracks (disk + 1) state)
     else if disk > maxDisk then Inl EarlyReturn
     else Inr chapters)"
  by pat_completeness auto
termination
  by (relation "measure (\<lambda>(tracks, disk, state). nat (maxDisk + 1 - disk))") auto

declare multi_disk_loop.simps [simp del]

text \<open>
  The trimming of an unfilled first and last slot (lines 105-109); \<^verbatim>\<open>chapters[-1]\<close> on
  an empty list is an \<^verbatim>\<open>IndexError\<close>.
\<close>

definition trim_chapters :: "track option list \<Rightarrow> stop + track option list" where
  "trim_chapters chapters =
    (case chapters of
       [] \<Rightarrow> Inl (Caught IndexError)
     | first # rest \<Rightarrow>
        (let chapters1 = (if first = None then rest else chapters)
         in if chapters1 = [] then Inl (Caught IndexError)
            else if last chapters1 = None then Inr (butlast chapters1)
            else Inr chapters1))"

text \<open>
  \<^verbatim>\<open>orderByTrackNumber\<close> (FileMerger.py, lines 64-115): every early stop gives \<^verbatim>\<open>[]\<close>.
\<close>

definition orderByTrackNumber :: "track list \<Rightarrow> bool \<Rightarrow> track option list" where
  "orderByTrackNumber tracks hasMultipleDisks =
    (let chapters = replicate (length tracks + 1) None;
         filled = (if hasMultipleDisks then multi_disk_loop tracks 1 (chapters, 0)
                   else single_disk_loop tracks chapters)
     in (case filled of
           Inl e \<Rightarrow> []
         | Inr chapters' \<Rightarrow>
            (case trim_chapters chapters' of Inl e \<Rightarrow> [] | Inr result \<Rightarrow> result)))"

text \<open>
  What \<^verbatim>\<open>mutagen.File(file, easy=True)\<close> gives for one file: a header error, another
  exception (with its text), \<^verbatim>\<open>None\<close>, or the track.
\<close>

datatype read_result = HeaderNotFound | ReadError string | ReadNone | ReadOk track

text \<open>
  The disc test of \<^verbatim>\<open>orderFiles\<close> for one track (lines 695-699): a \<^verbatim>\<open>KeyError\<close> or a
  \<^verbatim>\<open>ValueError\<close> is passed over, an \<^verbatim>\<open>IndexError\<close> escapes.
\<close>

definition other_disc :: "track \<Rightarrow> py_error + bool" where
  "other_disc t =
    (case disc_number t of
       Inr d \<Rightarrow> Inr (d \<noteq> 1)
     | Inl KeyError \<Rightarrow> Inr False
     | Inl ValueError \<Rightarrow> Inr False
     | Inl e \<Rightarrow> Inl e)"

text \<open>
  The reading loop of \<^verbatim>\<open>orderFiles\<close> (lines 677-699), as a call on the ledger state. Its
  value is \<open>Inr (tracks, flag)\<close>, the tracks read and the multi-disc flag, when every file
  has been read. A file that cannot be read fails the folder with \<^verbatim>\<open>failBook\<close> and makes
  \<^verbatim>\<open>orderFiles\<close> return \<^verbatim>\<open>[]\<close>: the value \<open>Inl []\<close>, unless \<^verbatim>\<open>failBook\<close> raises.
\<close>

fun read_tracks ::
  "(path \<Rightarrow> path) \<Rightarrow> ledger_settings option \<Rightarrow> path \<Rightarrow> bookstatus
    \<Rightarrow> (path \<times> read_result) list \<Rightarrow> track list \<times> bool
    \<Rightarrow> (track option list + (track list \<times> bool)) ledger_call" where
  "read_tracks resolve settings folderPath st [] (tracks, multi) =
    (Inr (Inr (tracks, multi)), st)"
| "read_tracks resolve settings folderPath st ((file, r) # files) (tracks, multi) =
    (case r of
       HeaderNotFound \<Rightarrow>
         then_return (failBook resolve settings st folderPath
                        (Some ''Corrupt or unreadable audio file'') None) (Inl [])
     | ReadError e \<Rightarrow>
         then_return (failBook resolve settings st folderPath
                        (Some (''Error reading chapter file: '' @ e)) None) (Inl [])
     | ReadNone \<Rightarrow>
         then_return (failBook resolve settings st folderPath
                        (Some (''Cannot read audio file: '' @ path_name file)) None) (Inl [])
     | ReadOk t \<Rightarrow>
         (case other_disc t of
            Inl e \<Rightarrow> (Inl e, st)
          | Inr other \<Rightarrow>
              read_tracks resolve settings folderPath st files (tracks @ [t], multi \<or> other)))"

text \<open>
  \<^verbatim>\<open>orderFiles\<close> (FileMerger.py, lines 672-718), as a call on the ledger state: it returns
  the ordered pieces, or an exception escapes. The title-based ordering \<^verbatim>\<open>orderByTitle\<close>
  does not touch the ledger; it is the parameter of the same name (\<open>Inl\<close> when it raises).
\<close>

definition orderFiles ::
  "(path \<Rightarrow> path) \<Rightarrow> ledger_settings option \<Rightarrow> (track list \<Rightarrow> py_error + track list)
    \<Rightarrow> bookstatus \<Rightarrow> (path \<times> read_result) list \<Rightarrow> path
    \<Rightarrow> track option list ledger_call" where
  "orderFiles resolve settings orderByTitle st files folderPath =
    (case read_tracks resolve settings folderPath st files ([], False) of
       (Inl e, st') \<Rightarrow> (Inl e, st')
     | (Inr (Inl returned), st') \<Rightarrow> (Inr returned, st')
     | (Inr (Inr (tracks, hasMultipleDisks)), st') \<Rightarrow>
        (let pieces = orderByTrackNumber tracks hasMultipleDisks
         in if length pieces = 0
            then (case orderByTitle tracks of
                    Inl e \<Rightarrow> (Inl e, st')
                  | Inr byTitle \<Rightarrow>
                     if length byTitle = 0
                     then (if folderPath \<noteq> []
                           then then_return
                                  (failBook resolve settings st' folderPath
                                     (Some ''Failed to order files'') (Some (map fst files))) []
                           else (Inr [], st'))
                     else (Inr (map Some byTitle), st'))
            else (Inr pieces, st')))"


section \<open>Util.py: cleanAuthorForPath\<close>

text \<open>The patterns of \<^verbatim>\<open>cleanAuthorForPath\<close>, all used with \<^verbatim>\<open>re.IGNORECASE\<close>. An
  abbreviation with optional full stops, such as \<^verbatim>\<open>Ph\.?D\.?\<close>, is \<open>dotted [''Ph'', ''D'']\<close>; the
  alternatives keep the order of the source.\<close>

definition dotted :: "string list \<Rightarrow> rx" where
  "dotted parts = cats (concat (map (\<lambda>w. [lit w, Opt (ChI (CHR ''.''))]) parts))"

definition credit_prefixes :: rx where
  "credit_prefixes =
    cats [alt (map lit [''foreword'', ''forward'', ''introduction'', ''preface'', ''afterword'',
                        ''epilogue'', ''read'', ''narrated'', ''translated'', ''edited'']),
          ws1, lit ''by'', ws1]"

definition credit_suffixes :: rx where
  "credit_suffixes =
    cats [ws1, ChI (CHR ''-''), ws0,
          alt (map lit [''foreword'', ''forward'', ''contributor'', ''editor'', ''introduction'',
                        ''afterword'', ''translator'', ''narrator'', ''preface'', ''epilogue'']),
          ws0, Eol]"

definition credit_role_suffix :: rx where
  "credit_role_suffix =
    cats [ws1, ChI (CHR ''-''), ws1,
          alt (map lit [''foreword'', ''forward'', ''contributor'', ''editor'', ''introduction'',
                        ''afterword'', ''translator'', ''narrator'', ''preface'']),
          ws0, Eol]"

definition credentials :: rx where
  "credentials =
    cats [Opt (ChI (CHR '','')), ws0,
          alt [dotted [''M'', ''D''], dotted [''Ph'', ''D''], dotted [''D'', ''O''],
               dotted [''J'', ''D''], dotted [''Ed'', ''D''], dotted [''Psy'', ''D''],
               dotted [''D'', ''Min''], dotted [''D'', ''D'', ''S''], dotted [''R'', ''N''],
               dotted [''L'', ''M'', ''F'', ''T''], dotted [''L'', ''C'', ''S'', ''W''],
               dotted [''M'', ''F'', ''T''], dotted [''L'', ''P'', ''C''],
               dotted [''L'', ''M'', ''H'', ''C''], dotted [''L'', ''P'', ''C'', ''C''],
               dotted [''M'', ''A''], dotted [''M'', ''S''], dotted [''M'', ''B'', ''A''],
               dotted [''M'', ''S'', ''W''], dotted [''B'', ''A''], dotted [''B'', ''S''],
               dotted [''C'', ''P'', ''A''], dotted [''Jr''], dotted [''Sr''],
               lit ''III'', lit ''II'', lit ''IV''],
          ws0, Eol]"

text \<open>Deleting matches never lengthens a text, and leaves it unchanged when the length is
  unchanged; the same holds for \<^verbatim>\<open>str.strip\<close>. This is what makes the credential loop end.\<close>

lemma re_sub_delete_length_aux:
  "repl = [] \<Longrightarrow>
   length (re_sub r repl s) \<le> length s
   \<and> (length (re_sub r repl s) = length s \<longrightarrow> re_sub r repl s = s)"
proof (induction r repl s rule: re_sub.induct)
  case (1 r repl s)
  note repl = \<open>repl = []\<close>
  show ?case
  proof (cases "rmatch r s \<noteq> [] \<and> length (hd (rmatch r s)) < length s")
    case True
    then have "re_sub r repl s = re_sub r repl (hd (rmatch r s))"
      using repl by (subst re_sub.simps) (simp add: Let_def)
    moreover have "length (re_sub r repl (hd (rmatch r s))) \<le> length (hd (rmatch r s))"
      using "1.IH"(1) [OF refl _ repl] True by simp
    ultimately show ?thesis using True by simp
  next
    case False
    show ?thesis
    proof (cases s)
      case Nil
      have "re_sub r repl s = []"
        using False Nil by (subst re_sub.simps) (simp add: Let_def)
      then show ?thesis using Nil by simp
    next
      case (Cons c cs)
      have eq: "re_sub r repl s = c # re_sub r repl cs"
        using False Cons by (subst re_sub.simps) (auto simp: Let_def)
      have "length (re_sub r repl cs) \<le> length cs
          \<and> (length (re_sub r repl cs) = length cs \<longrightarrow> re_sub r repl cs = cs)"
        using "1.IH"(2) [OF refl _ Cons repl] False by auto
      then show ?thesis using eq Cons by simp
    qed
  qed
qed

lemma re_sub_delete_length:
  "length (re_sub r [] s) \<le> length s
   \<and> (length (re_sub r [] s) = length s \<longrightarrow> re_sub r [] s = s)"
  by (rule re_sub_delete_length_aux) simp

lemma dropWhile_same_length: "length (dropWhile P xs) = length xs \<Longrightarrow> dropWhile P xs = xs"
  by (metis append_self_conv2 length_0_conv length_append takeWhile_dropWhile_id
      add_cancel_right_left)

lemma strip_length:
  "length (strip s) \<le> length s \<and> (length (strip s) = length s \<longrightarrow> strip s = s)"
proof -
  have a: "length (lstrip s) \<le> length s" by (simp add: lstrip_def length_dropWhile_le)
  have b: "length (rstrip (lstrip s)) \<le> length (lstrip s)"
    using length_dropWhile_le [of is_space "rev (lstrip s)"] by (simp add: rstrip_def)
  have le: "length (strip s) \<le> length s" using a b by (simp add: strip_def)
  have "strip s = s" if e: "length (strip s) = length s"
  proof -
    have l: "length (lstrip s) = length s" using a b e by (simp add: strip_def)
    then have ls: "lstrip s = s" unfolding lstrip_def by (rule dropWhile_same_length)
    have "length (dropWhile is_space (rev s)) = length (rev s)"
      using e ls by (simp add: strip_def rstrip_def)
    then have "dropWhile is_space (rev s) = rev s" by (rule dropWhile_same_length)
    then show ?thesis using ls by (simp add: strip_def rstrip_def)
  qed
  then show ?thesis using le by blast
qed

text \<open>The loop \<^verbatim>\<open>while prev_cleaned != cleaned\<close>: strip one trailing credential and the
  surrounding blanks, until a pass changes nothing.\<close>

function strip_credentials :: "string \<Rightarrow> string" where
  "strip_credentials cleaned =
    (let nxt = strip (re_sub credentials [] cleaned)
     in if nxt = cleaned then cleaned else strip_credentials nxt)"
  by pat_completeness auto
termination
proof (relation "measure length")
  show "wf (measure length)" by simp
next
  fix cleaned nxt :: string
  assume n: "nxt = strip (re_sub credentials [] cleaned)" and ne: "nxt \<noteq> cleaned"
  have 1: "length (re_sub credentials [] cleaned) \<le> length cleaned"
    using re_sub_delete_length by blast
  have 2: "length nxt \<le> length (re_sub credentials [] cleaned)"
    unfolding n using strip_length by blast
  have "length nxt \<noteq> length cleaned"
  proof
    assume e: "length nxt = length cleaned"
    then have "length (re_sub credentials [] cleaned) = length cleaned" using 1 2 by simp
    then have r: "re_sub credentials [] cleaned = cleaned" using re_sub_delete_length by blast
    have "length (strip cleaned) = length cleaned" using e n r by simp
    then have "strip cleaned = cleaned" using strip_length by blast
    then show False using n r ne by simp
  qed
  then show "(nxt, cleaned) \<in> measure length" using 1 2 by simp
qed

declare strip_credentials.simps [simp del]

text \<open>The \<^verbatim>\<open>for segment in segments\<close> loop: the first entry that is not a credit
  attribution.\<close>

fun first_author :: "string list \<Rightarrow> string option" where
  "first_author [] = None"
| "first_author (segment # segments) =
    (let seg = strip segment
     in if re_match credit_prefixes seg then first_author segments
        else if re_search credit_suffixes seg then first_author segments
        else Some seg)"

text \<open>\<^verbatim>\<open>cleanAuthorForPath(author)\<close> for a string argument (an empty one is returned as it is;
  \<^verbatim>\<open>re.split\<close> never returns an empty list, the case is kept as the source tests it).\<close>

definition cleanAuthorForPath :: "string \<Rightarrow> string" where
  "cleanAuthorForPath author =
    (if author = [] then author
     else
       (let segments = re_split (cats [ws0, one_of '',;/&'', ws0]) author;
            cleaned = (case first_author segments of
                         Some seg \<Rightarrow> Some seg
                       | None \<Rightarrow> (case segments of [] \<Rightarrow> None
                                   | segment # rest \<Rightarrow> Some (strip segment)))
        in (case cleaned of
              None \<Rightarrow> author
            | Some c \<Rightarrow>
                if c = [] then author
                else
                  (let c1 = re_sub credit_role_suffix [] c;
                       c2 = strip_credentials c1;
                       c3 = re_sub (one_of (''<>|?:*'' @ [double_quote])) [] c2
                   in strip (re_sub ws1 '' '' c3)))))"


section \<open>Properties of the mode dispatch\<close>

lemma processBooks_conflict:
  assumes "(recurseFetch st \<and> recurseCombine st) \<or> (recurseFetch st \<and> recursePreserve st)
    \<or> (recurseCombine st \<and> recursePreserve st)"
  shows "snd (snd (processBooks st batch)) = SystemExit None"
    and "fst (snd (processBooks st batch)) = []"
    and "map fst (fst (processBooks st batch)) = [CRITICAL]"
  using assms by (simp_all add: processBooks_def)

text \<open>
  Claim C3 (the code departs from it). With two recursive modes selected (\<^verbatim>\<open>-RF -RC\<close>),
  \<^verbatim>\<open>processBooks\<close> logs the conflict at CRITICAL level before dispatching any batch and
  leaves through a bare \<^verbatim>\<open>sys.exit()\<close>; the exit status of the process is therefore 0,
  not the non-zero status the specification requires for a fatal configuration error.
\<close>

theorem processBooks_conflict_exit_status:
  "processBooks \<lparr>recurseFetch = True, recurseCombine = True, recursePreserve = False\<rparr> batch
     = ([(CRITICAL,
          ''Incompatible processing modes selected. Enable only one processing mode. Exiting...'')],
        [], SystemExit None)
   \<and> script_exit_status (snd (snd (processBooks
        \<lparr>recurseFetch = True, recurseCombine = True, recursePreserve = False\<rparr> batch))) = 0"
  by (simp add: processBooks_def)

section \<open>Properties of the retry loop\<close>

lemma GETpage_loop_stuck:
  "timer s \<noteq> 2 \<Longrightarrow> timer s < 10 \<Longrightarrow> GETpage_loop fuel (\<lambda>k. None) s = None"
  by (induction fuel arbitrary: s) simp_all

text \<open>
  Claim C2 (the code departs from it). When every request raises, the loop sleeps for 2
  seconds once and sets the timer to 3.0; from then on neither \<^verbatim>\<open>timer == 2\<close> nor
  \<^verbatim>\<open>timer >= 10\<close> holds, so each further failure retries at once with the timer
  unchanged. Whatever the fuel, the loop has not returned: \<^verbatim>\<open>GETpage\<close> never gives up.
\<close>

theorem GETpage_never_gives_up:
  "GETpage_loop fuel (\<lambda>k. None) \<lparr>timer = 2, slept = [], attempts = 0\<rparr> = None
   \<and> GETpage fuel Map.empty now (\<lambda>k. None) url use_cache = None"
proof -
  have stuck: "GETpage_loop n (\<lambda>k. None) \<lparr>timer = 3, slept = [2], attempts = Suc 0\<rparr> = None" for n
    by (rule GETpage_loop_stuck) simp_all
  have loop: "GETpage_loop fuel (\<lambda>k. None) \<lparr>timer = 2, slept = [], attempts = 0\<rparr> = None"
  proof (cases fuel)
    case 0
    then show ?thesis by simp
  next
    case (Suc n)
    then show ?thesis using stuck [of n] by simp
  qed
  then show ?thesis by (simp add: GETpage_def get_cached_def)
qed

section \<open>Properties of the existing-output probe\<close>







section \<open>Properties of the skip and fail ledgers\<close>

lemma fails_deleteTempFile [simp]: "fails (deleteTempFile st item) = fails st"
  and skips_deleteTempFile [simp]: "skips (deleteTempFile st item) = skips st"
  by (simp_all add: deleteTempFile_def)



text \<open>
  Without a settings object both functions raise \<^verbatim>\<open>AttributeError\<close> right after the
  append: the path is in the ledger, and there is no log line and no fail marker.
\<close>

lemma failBook_no_settings:
  "failBook (\<lambda>p. p) None empty_status ''/in/Book'' None None
    = (Inl AttributeError,
       \<lparr>skips = [], fails = [''/in/Book''], originalPaths = Map.empty, effects = []\<rparr>)"
  by (simp add: failBook_def getRelativePath_def empty_status_def Let_def)

lemma skipBook_no_settings:
  "skipBook (\<lambda>p. p) None empty_status ''/in/Book'' None
    = (Inl AttributeError,
       \<lparr>skips = [''/in/Book''], fails = [], originalPaths = Map.empty, effects = []\<rparr>)"
  by (simp add: skipBook_def getRelativePath_def empty_status_def Let_def)




section \<open>Properties of the audio file listing\<close>

text \<open>
  Claim C10 as stated fails: the emptiness test comes before the offset is applied, so a
  folder with one audio file and an offset of one yields the empty list, not \<^verbatim>\<open>-1\<close>.
\<close>

theorem getAudioFiles_empty_list_counterexample:
  "getAudioFiles \<lparr>glob_all = [''/in/a.mp3''], rglob_all = [''/in/a.mp3'']\<rparr> 10 False 1
     = AudioFiles []"
  by code_simp

text \<open>
  Claim C10, amended. \<^verbatim>\<open>getAudioFiles\<close> returns \<^verbatim>\<open>-1\<close> exactly when no path matches
  (for every batch size and offset). Otherwise,
  for a batch size of \<^verbatim>\<open>-1\<close> (no limit) or a non-negative one, it returns the matches
  sorted by lower-cased path string, with the offset dropped first and the batch limit
  applied second; the list is sorted, and it is empty exactly when the offset reaches
  the number of matches or the batch size is 0.
\<close>

theorem getAudioFiles_result:
  "(getAudioFiles folderPath batch recurse offset = NoAudioFiles
      \<longleftrightarrow> audio_matches folderPath recurse = [])
   \<and> (audio_matches folderPath recurse \<noteq> [] \<and> (batch = - 1 \<or> 0 \<le> batch) \<longrightarrow>
       (let sorted_files = sort_key lower (audio_matches folderPath recurse);
            result = (if batch = - 1 then drop (nat offset) sorted_files
                      else take (nat batch) (drop (nat offset) sorted_files))
        in getAudioFiles folderPath batch recurse offset = AudioFiles result
           \<and> sorted (map lower result)
           \<and> (result = [] \<longleftrightarrow>
                length (audio_matches folderPath recurse) \<le> nat offset \<or> batch = 0)))"
proof (intro conjI impI)
  have "length (sort_key lower (audio_matches folderPath recurse))
      = length (audio_matches folderPath recurse)"
    by simp
  then have e: "sort_key lower (audio_matches folderPath recurse) = []
      \<longleftrightarrow> audio_matches folderPath recurse = []"
    by (metis length_0_conv)
  show "getAudioFiles folderPath batch recurse offset = NoAudioFiles
      \<longleftrightarrow> audio_matches folderPath recurse = []"
    by (simp add: getAudioFiles_def Let_def e)
next
  assume h: "audio_matches folderPath recurse \<noteq> [] \<and> (batch = - 1 \<or> 0 \<le> batch)"
  define S where "S = sort_key lower (audio_matches folderPath recurse)"
  define D where "D = drop (nat offset) S"
  have len: "length S = length (audio_matches folderPath recurse)"
    by (simp add: S_def)
  have ne: "length S \<noteq> 0" using h len by simp
  have D': "(if offset > 0 then drop (nat offset) S else S) = D"
    by (simp add: D_def)
  have sS: "sorted (map lower S)" unfolding S_def by (rule sorted_sort_key)
  have sD: "sorted (map lower D)"
    unfolding D_def drop_map [symmetric] using sS by (rule sorted_wrt_drop)
  have sT: "sorted (map lower (take n D))" for n
    unfolding take_map [symmetric] using sD by (rule sorted_wrt_take)
  define R where "R = (if batch = - 1 then D else take (nat batch) D)"
  have res: "getAudioFiles folderPath batch recurse offset = AudioFiles R"
    using h ne D' by (auto simp: getAudioFiles_def Let_def S_def [symmetric] R_def slice_to_def)
  have sR: "sorted (map lower R)" using sD sT by (simp add: R_def)
  have eR: "R = [] \<longleftrightarrow> length (audio_matches folderPath recurse) \<le> nat offset \<or> batch = 0"
    using h len by (auto simp: R_def D_def)
  show "let sorted_files = sort_key lower (audio_matches folderPath recurse);
            result = (if batch = - 1 then drop (nat offset) sorted_files
                      else take (nat batch) (drop (nat offset) sorted_files))
        in getAudioFiles folderPath batch recurse offset = AudioFiles result
           \<and> sorted (map lower result)
           \<and> (result = [] \<longleftrightarrow>
                length (audio_matches folderPath recurse) \<le> nat offset \<or> batch = 0)"
    using res sR eR unfolding Let_def R_def D_def S_def by simp
qed

theorem getAudioFiles_result_witness:
  "getAudioFiles \<lparr>glob_all = [''/in/b.mp3'', ''/in/A.m4b''], rglob_all = []\<rparr> 1 False 1
     = AudioFiles [''/in/b.mp3'']"
proof -
  define f where "f = \<lparr>glob_all = [''/in/b.mp3'', ''/in/A.m4b''], rglob_all = []\<rparr>"
  have ne: "audio_matches f False \<noteq> []"
    unfolding f_def by code_simp
  have s: "sort_key lower (audio_matches f False) = [''/in/A.m4b'', ''/in/b.mp3'']"
    unfolding f_def by code_simp
  from getAudioFiles_result [where folderPath = f and recurse = False and batch = 1
      and offset = 1] ne
  show ?thesis unfolding f_def [symmetric] Let_def s by simp
qed

section \<open>Properties of the float model\<close>

subsection \<open>Rounding\<close>

lemma rhe_le: "z \<le> of_int m \<Longrightarrow> round_half_even z \<le> m"
proof -
  assume a: "z \<le> of_int m"
  have f: "\<lfloor>z\<rfloor> \<le> m" using a by (simp add: floor_le_iff)
  show ?thesis
  proof (cases "z - of_int \<lfloor>z\<rfloor> < 1 / 2")
    case True
    then show ?thesis using f by (simp add: round_half_even_def Let_def)
  next
    case False
    then have "of_int \<lfloor>z\<rfloor> < z" by linarith
    then have "of_int \<lfloor>z\<rfloor> < (of_int m :: rat)" using a by linarith
    then have "\<lfloor>z\<rfloor> < m" by (simp only: of_int_less_iff)
    then show ?thesis using f by (simp add: round_half_even_def Let_def)
  qed
qed

lemma rhe_nonneg: "0 \<le> z \<Longrightarrow> 0 \<le> round_half_even z"
  by (simp add: round_half_even_def Let_def)

lemma rhe_of_int [simp]: "round_half_even (of_int m) = m"
  by (simp add: round_half_even_def Let_def)

lemma rhe_floor: "\<lfloor>z\<rfloor> \<le> round_half_even z \<and> round_half_even z \<le> \<lfloor>z\<rfloor> + 1"
  by (simp add: round_half_even_def Let_def)

lemma rhe_near: "\<bar>z - of_int m\<bar> < 1 / 2 \<Longrightarrow> round_half_even z = m"
proof -
  assume a: "\<bar>z - of_int m\<bar> < 1 / 2"
  show ?thesis
  proof (cases "of_int m \<le> z")
    case True
    then have "\<lfloor>z\<rfloor> = m" using a by (intro floor_unique) linarith+
    then show ?thesis using a True by (simp add: round_half_even_def Let_def)
  next
    case False
    then have "\<lfloor>z\<rfloor> = m - 1" using a by (intro floor_unique) (simp, linarith)+
    then show ?thesis using a False by (simp add: round_half_even_def Let_def)
  qed
qed

lemma rhe_tie: "z = of_int m + 1 / 2 \<Longrightarrow> round_half_even z = (if even m then m else m + 1)"
proof -
  assume a: "z = of_int m + 1 / 2"
  then have "\<lfloor>z\<rfloor> = m" by (intro floor_unique) simp_all
  then show ?thesis using a by (simp add: round_half_even_def Let_def)
qed

subsection \<open>The rounding function\<close>

lemma fl_zero [simp]: "fl 0 = 0"
  by (simp add: fl_def)

lemma ulp_pos: "0 < ulp a"
  by (simp add: ulp_def)

lemma fl_nonneg: "0 \<le> x \<Longrightarrow> 0 \<le> fl x"
  using ulp_pos [of "\<bar>x\<bar>"]
  by (auto simp: fl_def Let_def sgn_if intro!: mult_nonneg_nonneg rhe_nonneg)

lemma fl_le_nat:
  assumes "0 \<le> x" "x \<le> of_nat n" "n < 2 ^ 53"
  shows "fl x \<le> of_nat n"
proof (cases "x = 0")
  case True
  then show ?thesis by simp
next
  case False
  with assms have pos: "0 < x" by simp
  have lt: "x < 2 ^ 53"
  proof -
    have "(of_nat n :: rat) < of_nat (2 ^ 53)" using assms(3) by (simp only: of_nat_less_iff)
    then show ?thesis using assms(2) by simp
  qed
  define k where "k = up_scale 0 x"
  have u: "ulp x = 1 / 2 ^ k" using lt by (simp add: ulp_def k_def)
  have "x / (1 / 2 ^ k) \<le> of_int (int (n * 2 ^ k))"
    using assms(2) by (simp add: mult_right_mono)
  then have "round_half_even (x / (1 / 2 ^ k)) \<le> int (n * 2 ^ k)" by (rule rhe_le)
  then have "(of_int (round_half_even (x / (1 / 2 ^ k))) :: rat) \<le> of_int (int (n * 2 ^ k))"
    by (simp only: of_int_le_iff)
  then have "of_int (round_half_even (x / (1 / 2 ^ k))) * (1 / 2 ^ k)
      \<le> (of_int (int (n * 2 ^ k)) :: rat) * (1 / 2 ^ k)"
    by (rule mult_right_mono) simp
  moreover have "(of_int (int (n * 2 ^ k)) :: rat) * (1 / 2 ^ k) = of_nat n" by simp
  ultimately have "of_int (round_half_even (x / (1 / 2 ^ k))) * (1 / 2 ^ k) \<le> (of_nat n :: rat)"
    by (simp only:)
  then show ?thesis using pos u False by (simp add: fl_def Let_def)
qed

lemma fl_of_nat:
  assumes "n < 2 ^ 53"
  shows "fl (of_nat n) = of_nat n"
proof (cases "n = 0")
  case True
  then show ?thesis by simp
next
  case False
  then have pos: "0 < (of_nat n :: rat)" by simp
  have lt: "(of_nat n :: rat) < 2 ^ 53"
  proof -
    have "(of_nat n :: rat) < of_nat (2 ^ 53)" using assms by (simp only: of_nat_less_iff)
    then show ?thesis by simp
  qed
  define k where "k = up_scale 0 (of_nat n)"
  have u: "ulp (of_nat n) = 1 / 2 ^ k" using lt by (simp add: ulp_def k_def)
  have "(of_nat n :: rat) / (1 / 2 ^ k) = of_int (int (n * 2 ^ k))" by simp
  then have "round_half_even (of_nat n / (1 / 2 ^ k)) = int (n * 2 ^ k)"
    by (simp only: rhe_of_int)
  then show ?thesis using pos u False by (simp add: fl_def Let_def)
qed

lemma up_scale_eq:
  "0 < y \<Longrightarrow> j + d \<le> 1074 \<Longrightarrow> 2 ^ 52 \<le> y * 2 ^ d \<Longrightarrow> y * 2 ^ d < 2 ^ 53
    \<Longrightarrow> up_scale j y = j + d"
proof (induction d arbitrary: j y)
  case 0
  then show ?case by (subst up_scale.simps) simp
next
  case (Suc d)
  have "2 * (y * 2 ^ d) < 2 * 2 ^ 52" using Suc.prems(4) by simp
  then have small: "y * 2 ^ d < 2 ^ 52" by linarith
  have "y \<le> y * 2 ^ d" using Suc.prems(1) by simp
  then have y: "\<not> 2 ^ 52 \<le> y" using small by linarith
  have j: "\<not> 1074 \<le> j" using Suc.prems(2) by simp
  have "up_scale (Suc j) (2 * y) = Suc j + d"
    using Suc.prems by (intro Suc.IH) (simp_all add: mult.assoc mult.left_commute)
  then show ?case using y j by (subst up_scale.simps) simp
qed

lemma fl_eval:
  assumes "0 < x" "k \<le> 1074" "2 ^ 52 \<le> x * 2 ^ k" "x * 2 ^ k < 2 ^ 53"
    "round_half_even (x * 2 ^ k) = m"
  shows "fl x = of_int m / 2 ^ k"
proof -
  have "x \<le> x * 2 ^ k" using assms(1) by simp
  then have lt: "x < 2 ^ 53" using assms(4) by linarith
  have "up_scale 0 x = 0 + k" using assms(1-4) by (intro up_scale_eq) simp_all
  then have u: "ulp x = 1 / 2 ^ k" using lt by (simp add: ulp_def)
  show ?thesis using assms(1,5) u by (simp add: fl_def Let_def)
qed

lemma c06_val: "c06 = 5404319552844595 / 2 ^ 53"
proof -
  have "fl (6 / 10) = of_int 5404319552844595 / 2 ^ 53"
  proof (rule fl_eval)
    show "round_half_even (6 / 10 * 2 ^ 53) = 5404319552844595"
      by (rule rhe_near) simp
  qed simp_all
  then show ?thesis by (simp add: c06_def)
qed

lemma c04_val: "c04 = 7205759403792794 / 2 ^ 54"
proof -
  have "fl (4 / 10) = of_int 7205759403792794 / 2 ^ 54"
  proof (rule fl_eval)
    show "round_half_even (4 / 10 * 2 ^ 54) = 7205759403792794"
      by (rule rhe_near) simp
  qed simp_all
  then show ?thesis by (simp add: c04_def)
qed

section \<open>Properties of the match-confidence scorer\<close>

lemma float_of_int_small: "0 \<le> i \<Longrightarrow> i < 2 ^ 53 \<Longrightarrow> float_of_int i = of_int i"
proof -
  assume a: "0 \<le> i" "i < 2 ^ 53"
  have "nat i < 2 ^ 53" using a by (simp add: nat_less_iff)
  then have "fl (of_nat (nat i)) = of_nat (nat i)" by (rule fl_of_nat)
  then show ?thesis using a(1) by (simp add: float_of_int_def)
qed

lemma int_of_float_bounds:
  "0 \<le> x \<Longrightarrow> x \<le> of_nat n \<Longrightarrow> 0 \<le> int_of_float x \<and> int_of_float x \<le> int n"
  by (simp add: int_of_float_def floor_le_iff)

lemma word_overlap_percent_bounds:
  "0 \<le> word_overlap_percent A B \<and> word_overlap_percent A B \<le> 100"
proof (cases "card (A \<union> B) > 0")
  case False
  then show ?thesis by (simp add: word_overlap_percent_def)
next
  case True
  then have fin: "finite (A \<union> B)" by (rule card_ge_0_finite)
  have le: "card (A \<inter> B) \<le> card (A \<union> B)" using fin by (intro card_mono) auto
  define q where "q = true_div (int (card (A \<inter> B))) (int (card (A \<union> B)))"
  have q0: "0 \<le> q" unfolding q_def true_div_def by (intro fl_nonneg) simp
  have "(of_int (int (card (A \<inter> B))) :: rat) / of_int (int (card (A \<union> B))) \<le> of_nat 1"
    using le True by (simp add: divide_le_eq_1)
  then have q1: "q \<le> of_nat 1" unfolding q_def true_div_def
    by (intro fl_le_nat) simp_all
  have h: "float_of_int 100 = 100" using float_of_int_small [of 100] by simp
  define p where "p = fmul q (float_of_int 100)"
  have p0: "0 \<le> p" unfolding p_def fmul_def h using q0 by (intro fl_nonneg) simp
  have p1: "p \<le> of_nat 100" unfolding p_def fmul_def h using q0 q1
    by (intro fl_le_nat) simp_all
  have "word_overlap_percent A B = int_of_float p"
    using True by (simp add: word_overlap_percent_def Let_def p_def q_def)
  then show ?thesis using int_of_float_bounds [OF p0 p1] by simp
qed

lemma word_overlap_percent_disjoint: "A \<inter> B = {} \<Longrightarrow> word_overlap_percent A B = 0"
  by (simp add: word_overlap_percent_def Let_def true_div_def fmul_def int_of_float_def)

lemma title_score_bounds: "0 \<le> title_score a b \<and> title_score a b \<le> 100"
  using word_overlap_percent_bounds [of "set (split_ws a)" "set (split_ws b)"]
  by (simp add: title_score_def Let_def)

lemma split_acc_Nil: "split_acc cur t = [] \<longleftrightarrow> cur = [] \<and> (\<forall>c\<in>set t. is_space c)"
  by (induction t arbitrary: cur) auto

lemma strip_has_word: "strip s \<noteq> [] \<Longrightarrow> split_ws (strip s) \<noteq> []"
proof -
  assume a: "strip s \<noteq> []"
  define u where "u = dropWhile is_space (rev (lstrip s))"
  have s: "strip s = rev u" by (simp add: strip_def rstrip_def u_def)
  then have ne: "u \<noteq> []" using a by simp
  then have "\<not> is_space (hd u)" unfolding u_def by (rule hd_dropWhile)
  moreover have "hd u \<in> set (strip s)" using ne s by simp
  ultimately show ?thesis by (auto simp: split_ws_def split_acc_Nil)
qed

lemma normalize_has_word:
  assumes a: "normalizeForComparison t \<noteq> []"
  shows "split_ws (normalizeForComparison t) \<noteq> []"
proof -
  obtain s where s: "normalizeForComparison t = strip s"
    using a by (auto simp: normalizeForComparison_def Let_def split: if_splits option.splits)
  show ?thesis using a unfolding s by (rule strip_has_word)
qed

lemma last_word_ok:
  "split_ws s \<noteq> [] \<Longrightarrow> last_word s = Inr (last (split_ws s))"
  by (cases "split_ws s") (auto simp: last_word_def split_ws_def)

lemma author_score_ok:
  assumes "a \<noteq> [] \<longrightarrow> split_ws a \<noteq> []" "b \<noteq> [] \<longrightarrow> split_ws b \<noteq> []"
  shows "\<exists>n. author_score a b = Inr n \<and> 0 \<le> n \<and> n \<le> 100"
proof (cases "a \<noteq> [] \<and> b \<noteq> []")
  case False
  then show ?thesis by (auto simp: author_score_def)
next
  case True
  then have la: "last_word a = Inr (last (split_ws a))" and lb: "last_word b = Inr (last (split_ws b))"
    using assms by (simp_all add: last_word_ok)
  show ?thesis
    using True word_overlap_percent_bounds [of "set (split_ws a)" "set (split_ws b)"]
    by (simp add: author_score_def la lb Let_def)
qed

lemma c06_bounds: "0 \<le> c06 \<and> c06 \<le> 6 / 10"
  by (simp add: c06_val)

lemma fmul_c06_100: "fmul 100 c06 = 60"
proof -
  have "fl (100 * c06) = of_int (60 * 2 ^ 47) / 2 ^ 47"
  proof (rule fl_eval)
    show "round_half_even (100 * c06 * 2 ^ 47) = 60 * 2 ^ 47"
      by (rule rhe_near) (simp add: c06_val)
  qed (simp_all add: c06_val)
  then show ?thesis by (simp add: fmul_def)
qed

lemma fmul_c04_100: "fmul 100 c04 = 40"
proof -
  have "fl (100 * c04) = of_int (40 * 2 ^ 47) / 2 ^ 47"
  proof (rule fl_eval)
    show "round_half_even (100 * c04 * 2 ^ 47) = 40 * 2 ^ 47"
      by (rule rhe_near) (simp add: c04_val)
  qed (simp_all add: c04_val)
  then show ?thesis by (simp add: fmul_def)
qed

lemma weighted_bounds:
  assumes "0 \<le> t" "t \<le> 100" "0 \<le> a" "a \<le> 100"
  shows "0 \<le> int_of_float (fadd (fmul (float_of_int t) c06) (fmul (float_of_int a) c04))
       \<and> int_of_float (fadd (fmul (float_of_int t) c06) (fmul (float_of_int a) c04)) \<le> 100"
proof -
  have ft: "float_of_int t = of_int t" using assms by (intro float_of_int_small) simp_all
  have fa: "float_of_int a = of_int a" using assms by (intro float_of_int_small) simp_all
  define x where "x = fmul (of_int t) c06"
  define y where "y = fmul (of_int a) c04"
  have t': "(of_int t :: rat) \<le> 100" "0 \<le> (of_int t :: rat)" using assms by simp_all
  have x0: "0 \<le> x" unfolding x_def fmul_def using assms c06_bounds
    by (intro fl_nonneg mult_nonneg_nonneg) simp_all
  have "of_int t * c06 \<le> 100 * (6 / 10)"
    using t' c06_bounds by (intro mult_mono) simp_all
  then have "of_int t * c06 \<le> of_nat 60" by simp
  then have x1: "x \<le> of_nat 60" unfolding x_def fmul_def using assms c06_bounds
    by (intro fl_le_nat mult_nonneg_nonneg) simp_all
  have y0: "0 \<le> y" unfolding y_def fmul_def using assms
    by (intro fl_nonneg mult_nonneg_nonneg) (simp_all add: c04_val)
  have y1: "y \<le> of_nat 40"
  proof (cases "a = 100")
    case True
    then show ?thesis using fmul_c04_100 by (simp add: y_def)
  next
    case False
    then have "a \<le> 99" using assms by simp
    then have "(of_int a :: rat) \<le> 99" by (metis of_int_le_iff of_int_numeral)
    then have "of_int a * c04 \<le> 99 * c04" by (intro mult_right_mono) (simp_all add: c04_val)
    also have "\<dots> \<le> of_nat 40" by (simp add: c04_val)
    finally show ?thesis unfolding y_def fmul_def using assms
      by (intro fl_le_nat mult_nonneg_nonneg) (simp_all add: c04_val)
  qed
  have s0: "0 \<le> fadd x y" unfolding fadd_def using x0 y0 by (intro fl_nonneg) simp
  have s1: "fadd x y \<le> of_nat 100" unfolding fadd_def using x0 y0 x1 y1
    by (intro fl_le_nat) simp_all
  show ?thesis using int_of_float_bounds [OF s0 s1] by (simp add: ft fa x_def y_def)
qed

lemma weighted_100: "int_of_float (fadd (fmul (float_of_int 100) c06) (fmul (float_of_int 100) c04)) = 100"
proof -
  have h: "float_of_int 100 = 100" using float_of_int_small [of 100] by simp
  have "fl (of_nat 100) = of_nat 100" by (rule fl_of_nat) simp
  then have "fadd 60 40 = 100" by (simp add: fadd_def)
  then show ?thesis by (simp add: h fmul_c06_100 fmul_c04_100 int_of_float_def)
qed

lemma weighted_0: "int_of_float (fadd (fmul (float_of_int 0) c06) (fmul (float_of_int 0) c04)) = 0"
  by (simp add: float_of_int_def fmul_def fadd_def int_of_float_def)

lemma title_score_same: "title_score x x = (if x = [] then 0 else 100)"
  by (simp add: title_score_def)

lemma author_score_same: "author_score x x = Inr (if x = [] then 0 else 100)"
  by (simp add: author_score_def)

lemma title_score_disjoint:
  assumes "set (split_ws a) \<inter> set (split_ws b) = {}"
    and "a = [] \<or> b = [] \<or> (\<not> sublist a b \<and> \<not> sublist b a)"
  shows "title_score a b = 0"
proof (cases "a \<noteq> [] \<and> b \<noteq> []")
  case False
  then show ?thesis by (auto simp: title_score_def)
next
  case True
  with assms(2) have ns: "\<not> sublist a b" "\<not> sublist b a" by auto
  then have "a \<noteq> b" by auto
  then show ?thesis using True ns assms(1)
    by (simp add: title_score_def Let_def word_overlap_percent_disjoint)
qed

lemma author_score_disjoint:
  assumes "set (split_ws a) \<inter> set (split_ws b) = {}"
    and "a = [] \<or> b = [] \<or> (\<not> sublist a b \<and> \<not> sublist b a)"
    and "a \<noteq> [] \<longrightarrow> split_ws a \<noteq> []" "b \<noteq> [] \<longrightarrow> split_ws b \<noteq> []"
  shows "author_score a b = Inr 0"
proof (cases "a \<noteq> [] \<and> b \<noteq> []")
  case False
  then show ?thesis by (auto simp: author_score_def)
next
  case True
  with assms(2) have ns: "\<not> sublist a b" "\<not> sublist b a" by auto
  then have ne: "a \<noteq> b" by auto
  have wa: "split_ws a \<noteq> []" and wb: "split_ws b \<noteq> []" using True assms(3,4) by auto
  have la: "last_word a = Inr (last (split_ws a))" and lb: "last_word b = Inr (last (split_ws b))"
    using wa wb by (simp_all add: last_word_ok)
  have "last (split_ws a) \<in> set (split_ws a)" "last (split_ws b) \<in> set (split_ws b)"
    using wa wb by simp_all
  then have diff: "last (split_ws a) \<noteq> last (split_ws b)" using assms(1) by auto
  show ?thesis using True ns ne diff assms(1)
    by (simp add: author_score_def la lb Let_def word_overlap_percent_disjoint)
qed

text \<open>
  Claim C6, amended. \<^verbatim>\<open>calculateMatchConfidence\<close> always returns (no exception
  escapes), and its score lies between 0 and 100. When the normalized titles and the
  normalized authors are identical on both sides and at least one of the two file-side
  texts is non-empty, the score is exactly 100; when both file-side texts are empty it
  is 0. When the title words and the author words of the two sides are disjoint and,
  besides, neither normalized title contains the other as a substring and neither
  normalized author contains the other, the score is 0.
\<close>

theorem calculateMatchConfidence_score:
  "\<exists>score details.
     calculateMatchConfidence fileAuthor fileTitle audibleAuthor audibleTitle
       = Inr (score, details)
     \<and> 0 \<le> score \<and> score \<le> 100
     \<and> (normalizeForComparison fileTitle = normalizeForComparison audibleTitle
        \<and> normalizeForComparison fileAuthor = normalizeForComparison audibleAuthor
        \<and> (normalizeForComparison fileTitle \<noteq> [] \<or> normalizeForComparison fileAuthor \<noteq> [])
        \<longrightarrow> score = 100)
     \<and> (normalizeForComparison fileTitle = [] \<and> normalizeForComparison fileAuthor = []
        \<longrightarrow> score = 0)
     \<and> (set (split_ws (normalizeForComparison fileTitle))
            \<inter> set (split_ws (normalizeForComparison audibleTitle)) = {}
        \<and> set (split_ws (normalizeForComparison fileAuthor))
            \<inter> set (split_ws (normalizeForComparison audibleAuthor)) = {}
        \<and> (normalizeForComparison fileTitle = [] \<or> normalizeForComparison audibleTitle = []
            \<or> (\<not> sublist (normalizeForComparison fileTitle) (normalizeForComparison audibleTitle)
                \<and> \<not> sublist (normalizeForComparison audibleTitle)
                      (normalizeForComparison fileTitle)))
        \<and> (normalizeForComparison fileAuthor = [] \<or> normalizeForComparison audibleAuthor = []
            \<or> (\<not> sublist (normalizeForComparison fileAuthor)
                      (normalizeForComparison audibleAuthor)
                \<and> \<not> sublist (normalizeForComparison audibleAuthor)
                      (normalizeForComparison fileAuthor)))
        \<longrightarrow> score = 0)"
proof -
  define fan where "fan = normalizeForComparison fileAuthor"
  define ftn where "ftn = normalizeForComparison fileTitle"
  define aan where "aan = normalizeForComparison audibleAuthor"
  define atn where "atn = normalizeForComparison audibleTitle"
  define ts where "ts = title_score ftn atn"
  have wfa: "fan \<noteq> [] \<longrightarrow> split_ws fan \<noteq> []" and waa: "aan \<noteq> [] \<longrightarrow> split_ws aan \<noteq> []"
    unfolding fan_def aan_def by (simp_all add: normalize_has_word)
  obtain n where n: "author_score fan aan = Inr n" "0 \<le> n" "n \<le> 100"
    using author_score_ok [OF wfa waa] by blast
  have tsb: "0 \<le> ts" "ts \<le> 100" unfolding ts_def using title_score_bounds by simp_all
  define score where "score = combined_score fan ftn ts n"
  define details where
    "details = ''title:'' @ str_int ts @ ''% author:'' @ str_int n @ ''%''"
  have res: "calculateMatchConfidence fileAuthor fileTitle audibleAuthor audibleTitle
      = Inr (score, details)"
    using n(1)
    by (simp add: calculateMatchConfidence_def Let_def fan_def [symmetric] ftn_def [symmetric]
        aan_def [symmetric] atn_def [symmetric] ts_def [symmetric] score_def details_def)
  have bounds: "0 \<le> score \<and> score \<le> 100"
    unfolding score_def combined_score_def using tsb n(2,3) weighted_bounds [of ts n]
    by simp
  have same: "score = 100" if h: "ftn = atn \<and> fan = aan \<and> (ftn \<noteq> [] \<or> fan \<noteq> [])"
  proof -
    have t: "ts = (if ftn = [] then 0 else 100)" using h by (simp add: ts_def title_score_same)
    have a: "n = (if fan = [] then 0 else 100)" using h n(1) by (simp add: author_score_same)
    show ?thesis using h t a weighted_100 by (auto simp: score_def combined_score_def)
  qed
  have none: "score = 0" if "ftn = [] \<and> fan = []"
    using that by (simp add: score_def combined_score_def)
  have disj: "score = 0"
    if h: "set (split_ws ftn) \<inter> set (split_ws atn) = {}
        \<and> set (split_ws fan) \<inter> set (split_ws aan) = {}
        \<and> (ftn = [] \<or> atn = [] \<or> (\<not> sublist ftn atn \<and> \<not> sublist atn ftn))
        \<and> (fan = [] \<or> aan = [] \<or> (\<not> sublist fan aan \<and> \<not> sublist aan fan))"
  proof -
    have t: "ts = 0" unfolding ts_def using h by (intro title_score_disjoint) simp_all
    have "author_score fan aan = Inr 0" using h wfa waa by (intro author_score_disjoint) simp_all
    then have a: "n = 0" using n(1) by simp
    show ?thesis using t a weighted_0 by (simp add: score_def combined_score_def)
  qed
  show ?thesis
    using res bounds same none disj
    unfolding fan_def ftn_def aan_def atn_def by blast
qed

subsection \<open>Evaluation at concrete scores\<close>

lemma float_of_int_100: "float_of_int 100 = 100"
  using float_of_int_small [of 100] by simp

lemma float_of_int_85: "float_of_int 85 = 85"
  using float_of_int_small [of 85] by simp

lemma float_of_int_33: "float_of_int 33 = 33"
  using float_of_int_small [of 33] by simp

lemma float_of_int_0: "float_of_int 0 = 0"
  by (simp add: float_of_int_def)

lemma fmul_85_c06: "fmul 85 c06 = 51"
proof -
  have "fl (85 * c06) = of_int (51 * 2 ^ 47) / 2 ^ 47"
  proof (rule fl_eval)
    show "round_half_even (85 * c06 * 2 ^ 47) = 51 * 2 ^ 47"
      by (rule rhe_near) (simp add: c06_val)
  qed (simp_all add: c06_val)
  then show ?thesis by (simp add: fmul_def)
qed

lemma weighted_85_0:
  "int_of_float (fadd (fmul (float_of_int 85) c06) (fmul (float_of_int 0) c04)) = 51"
proof -
  have "fl (of_nat 51) = of_nat 51" by (rule fl_of_nat) simp
  then have "fadd 51 0 = 51" by (simp add: fadd_def)
  then show ?thesis
    by (simp add: float_of_int_85 float_of_int_0 fmul_85_c06 int_of_float_def)
      (simp add: fmul_def)
qed

lemma true_div_1_3: "true_div 1 3 = 6004799503160661 / 2 ^ 54"
proof -
  have "fl (1 / 3) = of_int 6004799503160661 / 2 ^ 54"
  proof (rule fl_eval)
    show "round_half_even (1 / 3 * 2 ^ 54) = 6004799503160661"
      by (rule rhe_near) simp
  qed simp_all
  then show ?thesis by (simp add: true_div_def)
qed

lemma fmul_third_100: "fmul (6004799503160661 / 2 ^ 54) 100 = 4691249611844266 / 2 ^ 47"
proof -
  have "fl (6004799503160661 / 2 ^ 54 * 100) = of_int 4691249611844266 / 2 ^ 47"
  proof (rule fl_eval)
    show "round_half_even (6004799503160661 / 2 ^ 54 * 100 * 2 ^ 47) = 4691249611844266"
      by (rule rhe_near) simp
  qed simp_all
  then show ?thesis by (simp add: fmul_def)
qed

lemma int_of_float_floor: "0 \<le> x \<Longrightarrow> \<lfloor>x\<rfloor> = m \<Longrightarrow> int_of_float x = m"
  by (simp add: int_of_float_def)

lemma overlap_1_of_3:
  assumes "card (A \<inter> B) = 1" "card (A \<union> B) = 3"
  shows "word_overlap_percent A B = 33"
proof -
  have "word_overlap_percent A B = int_of_float (fmul (true_div 1 3) (float_of_int 100))"
    using assms by (simp add: word_overlap_percent_def Let_def)
  also have "\<dots> = int_of_float (4691249611844266 / 2 ^ 47)"
    by (simp only: true_div_1_3 float_of_int_100 fmul_third_100)
  also have "\<dots> = 33"
    by (rule int_of_float_floor, simp, rule floor_unique) simp_all
  finally show ?thesis .
qed

lemma fmul_33_c06: "fmul 33 c06 = 5573204538870989 / 2 ^ 48"
proof -
  have "fl (33 * c06) = of_int 5573204538870989 / 2 ^ 48"
  proof (rule fl_eval)
    show "round_half_even (33 * c06 * 2 ^ 48) = 5573204538870989"
      by (rule rhe_near) (simp add: c06_val)
  qed (simp_all add: c06_val)
  then show ?thesis by (simp add: fmul_def)
qed

lemma fadd_198_40: "fadd (5573204538870989 / 2 ^ 48) 40 = 8416101803648614 / 2 ^ 47"
proof -
  have "fl (5573204538870989 / 2 ^ 48 + 40) = of_int 8416101803648614 / 2 ^ 47"
  proof (rule fl_eval)
    have "round_half_even ((5573204538870989 / 2 ^ 48 + 40) * 2 ^ 47)
        = (if even (8416101803648614 :: int) then 8416101803648614 else 8416101803648614 + 1)"
      by (rule rhe_tie) simp
    then show "round_half_even ((5573204538870989 / 2 ^ 48 + 40) * 2 ^ 47) = 8416101803648614"
      by simp
  qed simp_all
  then show ?thesis by (simp add: fadd_def)
qed

lemma weighted_sum_33_100:
  "fadd (fmul (float_of_int 33) c06) (fmul (float_of_int 100) c04) = 8416101803648614 / 2 ^ 47"
  by (simp only: float_of_int_33 float_of_int_100 fmul_33_c06 fmul_c04_100 fadd_198_40)

lemma weighted_33_100:
  "int_of_float (fadd (fmul (float_of_int 33) c06) (fmul (float_of_int 100) c04)) = 59"
  unfolding weighted_sum_33_100
  by (rule int_of_float_floor, simp, rule floor_unique) simp_all

lemma rounded_33_100: "combined_score_rounded 33 100 = 60"
  unfolding combined_score_rounded_def weighted_sum_33_100
  by (rule rhe_near) simp

lemma norm_x: "normalizeForComparison (Some ''x'') = ''x''" by code_simp
lemma norm_y: "normalizeForComparison (Some ''y'') = ''y''" by code_simp
lemma norm_cat: "normalizeForComparison (Some ''cat'') = ''cat''" by code_simp
lemma norm_concatenate: "normalizeForComparison (Some ''concatenate'') = ''concatenate''"
  by code_simp
lemma norm_a_b: "normalizeForComparison (Some ''a b'') = ''a b''" by code_simp
lemma norm_a_c: "normalizeForComparison (Some ''a c'') = ''a c''" by code_simp
lemma norm_empty: "normalizeForComparison (Some []) = []"
  by (simp add: normalizeForComparison_def)

lemma title_cat: "title_score ''cat'' ''concatenate'' = 85"
proof -
  have "sublist ''cat'' ''concatenate''" by code_simp
  then show ?thesis by (simp add: title_score_def)
qed

lemma words_cat: "set (split_ws ''cat'') \<inter> set (split_ws ''concatenate'') = {}"
  by code_simp

lemma words_x_y: "set (split_ws ''x'') \<inter> set (split_ws ''y'') = {}"
  by code_simp

lemma author_x_y: "author_score ''x'' ''y'' = Inr 0"
proof (rule author_score_disjoint)
  show "set (split_ws ''x'') \<inter> set (split_ws ''y'') = {}" by (rule words_x_y)
  have "\<not> sublist ''x'' ''y''" "\<not> sublist ''y'' ''x''" by code_simp+
  then show "''x'' = [] \<or> ''y'' = [] \<or> \<not> sublist ''x'' ''y'' \<and> \<not> sublist ''y'' ''x''" by simp
  show "''x'' \<noteq> [] \<longrightarrow> split_ws ''x'' \<noteq> []" by code_simp
  show "''y'' \<noteq> [] \<longrightarrow> split_ws ''y'' \<noteq> []" by code_simp
qed

lemma str_85: "str_int 85 = ''85''" by code_simp
lemma str_0: "str_int 0 = ''0''" by code_simp
lemma str_33: "str_int 33 = ''33''" by code_simp
lemma str_100: "str_int 100 = ''100''" by code_simp

text \<open>
  Claim C6 as stated fails twice. With no text at all the two sides are identical and
  the score is 0, not 100. And the containment test is a substring test, not a word
  test: \<^verbatim>\<open>cat\<close> against \<^verbatim>\<open>concatenate\<close> shares no word, yet scores 85 for the title,
  and with the disjoint authors \<^verbatim>\<open>x\<close> and \<^verbatim>\<open>y\<close> the combined score is 51, not 0.
\<close>

theorem calculateMatchConfidence_counterexample:
  "calculateMatchConfidence (Some []) (Some []) (Some []) (Some [])
     = Inr (0, ''title:0% author:0%'')
   \<and> calculateMatchConfidence (Some ''x'') (Some ''cat'') (Some ''y'') (Some ''concatenate'')
     = Inr (51, ''title:85% author:0%'')
   \<and> set (split_ws (normalizeForComparison (Some ''cat'')))
       \<inter> set (split_ws (normalizeForComparison (Some ''concatenate''))) = {}
   \<and> set (split_ws (normalizeForComparison (Some ''x'')))
       \<inter> set (split_ws (normalizeForComparison (Some ''y''))) = {}"
proof -
  have e: "calculateMatchConfidence (Some []) (Some []) (Some []) (Some [])
     = Inr (0, ''title:0% author:0%'')"
    by (simp add: calculateMatchConfidence_def norm_empty title_score_def author_score_def
        combined_score_def str_0)
  have c: "calculateMatchConfidence (Some ''x'') (Some ''cat'') (Some ''y'') (Some ''concatenate'')
     = Inr (51, ''title:85% author:0%'')"
    unfolding calculateMatchConfidence_def Let_def norm_x norm_y norm_cat norm_concatenate
      title_cat author_x_y
    by (simp add: combined_score_def weighted_85_0 str_85 str_0)
  show ?thesis
    unfolding norm_x norm_y norm_cat norm_concatenate
    using e c words_cat words_x_y by simp
qed

text \<open>The witness: the same title and author on both sides.\<close>

theorem calculateMatchConfidence_score_witness:
  "\<exists>details. calculateMatchConfidence (Some ''x'') (Some ''cat'') (Some ''x'') (Some ''cat'')
      = Inr (100, details)"
proof -
  obtain score details where
    r: "calculateMatchConfidence (Some ''x'') (Some ''cat'') (Some ''x'') (Some ''cat'')
          = Inr (score, details)"
    and s: "normalizeForComparison (Some ''cat'') = normalizeForComparison (Some ''cat'')
        \<and> normalizeForComparison (Some ''x'') = normalizeForComparison (Some ''x'')
        \<and> (normalizeForComparison (Some ''cat'') \<noteq> [] \<or> normalizeForComparison (Some ''x'') \<noteq> [])
        \<longrightarrow> score = 100"
    using calculateMatchConfidence_score [of "Some ''x''" "Some ''cat''" "Some ''x''" "Some ''cat''"]
    by blast
  have "score = 100" using s by (simp add: norm_x)
  then show ?thesis using r by blast
qed

lemma card_inter_ab: "card (set (split_ws ''a b'') \<inter> set (split_ws ''a c'')) = 1" by code_simp
lemma card_union_ab: "card (set (split_ws ''a b'') \<union> set (split_ws ''a c'')) = 3" by code_simp

lemma title_a_b: "title_score ''a b'' ''a c'' = 33"
proof -
  have n: "\<not> sublist ''a b'' ''a c''" "\<not> sublist ''a c'' ''a b''" by code_simp+
  have w: "set (split_ws ''a b'') \<noteq> {}" "set (split_ws ''a c'') \<noteq> {}" by code_simp+
  show ?thesis
    using n w overlap_1_of_3 [OF card_inter_ab card_union_ab]
    by (simp add: title_score_def Let_def)
qed

lemma weighted_nonneg:
  assumes "0 \<le> t" "0 \<le> a"
  shows "0 \<le> fadd (fmul (float_of_int t) c06) (fmul (float_of_int a) c04)"
proof -
  have "0 \<le> float_of_int t" "0 \<le> float_of_int a"
    unfolding float_of_int_def using assms by (simp_all add: fl_nonneg)
  then have "0 \<le> fmul (float_of_int t) c06" "0 \<le> fmul (float_of_int a) c04"
    unfolding fmul_def by (simp_all add: fl_nonneg c06_val c04_val)
  then show ?thesis unfolding fadd_def by (simp add: fl_nonneg)
qed

text \<open>
  Claim C7, amended. Whenever both the file-side author and the file-side title normalize
  to non-empty text, the combined score is \<^verbatim>\<open>int(titleScore * 0.6 + authorScore * 0.4)\<close>:
  the float sum truncated towards zero, not rounded. It never exceeds the rounded value
  and is at most one below it.
\<close>

theorem combined_score_truncates:
  "normalizeForComparison fileAuthor \<noteq> [] \<and> normalizeForComparison fileTitle \<noteq> [] \<longrightarrow>
     (\<exists>authorScore details.
        author_score (normalizeForComparison fileAuthor) (normalizeForComparison audibleAuthor)
          = Inr authorScore
        \<and> calculateMatchConfidence fileAuthor fileTitle audibleAuthor audibleTitle
          = Inr (int_of_float
                   (fadd (fmul (float_of_int (title_score (normalizeForComparison fileTitle)
                                                (normalizeForComparison audibleTitle))) c06)
                         (fmul (float_of_int authorScore) c04)),
                 details)
        \<and> int_of_float
             (fadd (fmul (float_of_int (title_score (normalizeForComparison fileTitle)
                                          (normalizeForComparison audibleTitle))) c06)
                   (fmul (float_of_int authorScore) c04))
            \<le> combined_score_rounded (title_score (normalizeForComparison fileTitle)
                                          (normalizeForComparison audibleTitle)) authorScore
        \<and> combined_score_rounded (title_score (normalizeForComparison fileTitle)
                                    (normalizeForComparison audibleTitle)) authorScore
            \<le> int_of_float
                 (fadd (fmul (float_of_int (title_score (normalizeForComparison fileTitle)
                                              (normalizeForComparison audibleTitle))) c06)
                       (fmul (float_of_int authorScore) c04)) + 1)"
proof
  assume h: "normalizeForComparison fileAuthor \<noteq> [] \<and> normalizeForComparison fileTitle \<noteq> []"
  define fan where "fan = normalizeForComparison fileAuthor"
  define ftn where "ftn = normalizeForComparison fileTitle"
  define aan where "aan = normalizeForComparison audibleAuthor"
  define atn where "atn = normalizeForComparison audibleTitle"
  define ts where "ts = title_score ftn atn"
  have wfa: "fan \<noteq> [] \<longrightarrow> split_ws fan \<noteq> []" and waa: "aan \<noteq> [] \<longrightarrow> split_ws aan \<noteq> []"
    unfolding fan_def aan_def by (simp_all add: normalize_has_word)
  obtain n where n: "author_score fan aan = Inr n" "0 \<le> n" "n \<le> 100"
    using author_score_ok [OF wfa waa] by blast
  define w where "w = fadd (fmul (float_of_int ts) c06) (fmul (float_of_int n) c04)"
  have ts0: "0 \<le> ts" unfolding ts_def using title_score_bounds by simp
  have w0: "0 \<le> w" unfolding w_def using ts0 n(2) by (rule weighted_nonneg)
  have res: "calculateMatchConfidence fileAuthor fileTitle audibleAuthor audibleTitle
      = Inr (int_of_float w, ''title:'' @ str_int ts @ ''% author:'' @ str_int n @ ''%'')"
    using n(1) h
    by (simp add: calculateMatchConfidence_def Let_def fan_def [symmetric] ftn_def [symmetric]
        aan_def [symmetric] atn_def [symmetric] ts_def [symmetric] combined_score_def w_def)
  have r: "int_of_float w \<le> combined_score_rounded ts n
      \<and> combined_score_rounded ts n \<le> int_of_float w + 1"
    using w0 rhe_floor [of w] by (simp add: combined_score_rounded_def w_def int_of_float_def)
  show "\<exists>authorScore details.
        author_score (normalizeForComparison fileAuthor) (normalizeForComparison audibleAuthor)
          = Inr authorScore
        \<and> calculateMatchConfidence fileAuthor fileTitle audibleAuthor audibleTitle
          = Inr (int_of_float
                   (fadd (fmul (float_of_int (title_score (normalizeForComparison fileTitle)
                                                (normalizeForComparison audibleTitle))) c06)
                         (fmul (float_of_int authorScore) c04)),
                 details)
        \<and> int_of_float
             (fadd (fmul (float_of_int (title_score (normalizeForComparison fileTitle)
                                          (normalizeForComparison audibleTitle))) c06)
                   (fmul (float_of_int authorScore) c04))
            \<le> combined_score_rounded (title_score (normalizeForComparison fileTitle)
                                          (normalizeForComparison audibleTitle)) authorScore
        \<and> combined_score_rounded (title_score (normalizeForComparison fileTitle)
                                    (normalizeForComparison audibleTitle)) authorScore
            \<le> int_of_float
                 (fadd (fmul (float_of_int (title_score (normalizeForComparison fileTitle)
                                              (normalizeForComparison audibleTitle))) c06)
                       (fmul (float_of_int authorScore) c04)) + 1"
    using n(1) res r
    unfolding w_def ts_def fan_def ftn_def aan_def atn_def by blast
qed

text \<open>
  Claim C7 as stated fails: for the titles \<^verbatim>\<open>a b\<close> and \<^verbatim>\<open>a c\<close> (title score 33) and
  the same author (author score 100) the weighted sum is 59.8; the code returns 59,
  rounding gives 60.
\<close>

theorem combined_score_round_counterexample:
  "normalizeForComparison (Some ''x'') \<noteq> [] \<and> normalizeForComparison (Some ''a b'') \<noteq> []
   \<and> title_score (normalizeForComparison (Some ''a b'')) (normalizeForComparison (Some ''a c''))
       = 33
   \<and> author_score (normalizeForComparison (Some ''x'')) (normalizeForComparison (Some ''x''))
       = Inr 100
   \<and> calculateMatchConfidence (Some ''x'') (Some ''a b'') (Some ''x'') (Some ''a c'')
       = Inr (59, ''title:33% author:100%'')
   \<and> combined_score_rounded 33 100 = 60"
proof -
  have a: "author_score ''x'' ''x'' = Inr 100" by (simp add: author_score_same)
  have c: "calculateMatchConfidence (Some ''x'') (Some ''a b'') (Some ''x'') (Some ''a c'')
       = Inr (59, ''title:33% author:100%'')"
    unfolding calculateMatchConfidence_def Let_def norm_x norm_a_b norm_a_c title_a_b a
    by (simp add: combined_score_def weighted_33_100 str_33 str_100)
  show ?thesis
    unfolding norm_x norm_a_b norm_a_c
    using a c title_a_b rounded_33_100 by simp
qed

text \<open>The witness: the same input, where the code returns 59.\<close>

theorem combined_score_truncates_witness:
  "\<exists>details. calculateMatchConfidence (Some ''x'') (Some ''a b'') (Some ''x'') (Some ''a c'')
      = Inr (59, details)"
proof -
  have h: "normalizeForComparison (Some ''x'') \<noteq> [] \<and> normalizeForComparison (Some ''a b'') \<noteq> []"
    by (simp add: norm_x norm_a_b)
  from combined_score_truncates [of "Some ''x''" "Some ''a b''" "Some ''x''" "Some ''a c''"] h
  obtain authorScore details where
    a: "author_score (normalizeForComparison (Some ''x'')) (normalizeForComparison (Some ''x''))
          = Inr authorScore"
    and r: "calculateMatchConfidence (Some ''x'') (Some ''a b'') (Some ''x'') (Some ''a c'')
          = Inr (int_of_float
                   (fadd (fmul (float_of_int (title_score (normalizeForComparison (Some ''a b''))
                                                (normalizeForComparison (Some ''a c'')))) c06)
                         (fmul (float_of_int authorScore) c04)),
                 details)"
    by blast
  have "authorScore = 100" using a by (simp add: norm_x author_score_same)
  then show ?thesis using r
    by (simp add: norm_a_b norm_a_c title_a_b weighted_33_100)
qed

section \<open>Properties of the chapter manifest\<close>

lemma present_simps [simp]:
  "present [] = []"
  "present (None # xs) = present xs"
  "present (Some x # xs) = x # present xs"
  by (simp_all add: present_def List.map_filter_simps)

lemma createTempFiles_loop_length:
  "length (createTempFiles_loop rt cc pieces) = length (present pieces)"
proof (induction pieces arbitrary: rt cc)
  case Nil
  then show ?case by simp
next
  case (Cons x pieces)
  then show ?case by (cases x) simp_all
qed

lemma createTempFiles_loop_nth:
  "k < length (present pieces) \<Longrightarrow>
   createTempFiles_loop rt cc pieces ! k =
     \<lparr>concat_line = concat_file_line (present pieces ! k),
      chapter_start = foldl advance rt (take k (present pieces)),
      chapter_end = foldl advance rt (take (Suc k) (present pieces)),
      chapter_number = cc + int k\<rparr>"
proof (induction pieces arbitrary: rt cc k)
  case Nil
  then show ?case by simp
next
  case (Cons x pieces)
  show ?case
  proof (cases x)
    case None
    then show ?thesis using Cons by simp
  next
    case (Some p)
    show ?thesis
    proof (cases k)
      case 0
      then show ?thesis using Some by simp
    next
      case (Suc m)
      then have "m < length (present pieces)" using Cons.prems Some by simp
      from Cons.IH [OF this, of "advance rt p" "cc + 1"]
      show ?thesis using Some Suc by simp
    qed
  qed
qed

lemma createTempFiles_loop_eq:
  "createTempFiles_loop rt cc pieces =
    map (\<lambda>k. \<lparr>concat_line = concat_file_line (present pieces ! k),
               chapter_start = foldl advance rt (take k (present pieces)),
               chapter_end = foldl advance rt (take (Suc k) (present pieces)),
               chapter_number = cc + int k\<rparr>)
        [0..<length (present pieces)]"
  by (rule nth_equalityI) (simp_all add: createTempFiles_loop_length createTempFiles_loop_nth)

lemma map_nth_upt: "map (\<lambda>k. g (xs ! k)) [0..<length xs] = map g xs"
  by (rule nth_equalityI) simp_all

lemma running_time_step:
  "k < length ps \<Longrightarrow> running_time (take (Suc k) ps) = advance (running_time (take k ps)) (ps ! k)"
  by (simp add: running_time_def take_Suc_conv_app_nth)

text \<open>
  Claim C5, amended. The manifest begins with the \<^verbatim>\<open>;FFMETADATA1\<close> header and holds one
  \<^verbatim>\<open>[CHAPTER]\<close> block for each entry of the list that is not \<^verbatim>\<open>None\<close>, in order, with
  \<^verbatim>\<open>TIMEBASE=1/1000\<close> and \<^verbatim>\<open>title=Chapter N\<close> numbered from 1. \<^verbatim>\<open>START\<close> is the
  cumulative offset of the preceding chapters, the integer 0 for the first, and \<^verbatim>\<open>END\<close>
  is \<^verbatim>\<open>START\<close> plus the duration in seconds times 1000, both in float arithmetic and
  printed as floats: the offsets are not made integers. The concatenation list holds
  one line for each of the same entries.
\<close>

theorem createTempFiles_manifest:
  "fst (createTempFiles float_repr pieces) = map concat_file_line (present pieces)
   \<and> snd (createTempFiles float_repr pieces) =
       ('';FFMETADATA1'' @ [newline])
       # concat (map (\<lambda>k.
            [''[CHAPTER]'' @ [newline],
             ''TIMEBASE=1/1000'' @ [newline],
             ''START='' @ format_num float_repr (running_time (take k (present pieces)))
               @ [newline],
             ''END='' @ format_num float_repr (running_time (take (Suc k) (present pieces)))
               @ [newline],
             ''title=Chapter '' @ str_int (int k + 1) @ [newline, newline]])
          [0..<length (present pieces)])
   \<and> running_time [] = PyInt 0
   \<and> (\<forall>k<length (present pieces).
         running_time (take (Suc k) (present pieces))
           = PyFloat (fadd (to_float (running_time (take k (present pieces))))
                           (fmul (info_length (present pieces ! k)) (float_of_int 1000))))"
proof (intro conjI allI impI)
  show "fst (createTempFiles float_repr pieces) = map concat_file_line (present pieces)"
    by (simp add: createTempFiles_def createTempFiles_loop_eq Let_def comp_def map_nth_upt)
  show "snd (createTempFiles float_repr pieces) =
       ('';FFMETADATA1'' @ [newline])
       # concat (map (\<lambda>k.
            [''[CHAPTER]'' @ [newline],
             ''TIMEBASE=1/1000'' @ [newline],
             ''START='' @ format_num float_repr (running_time (take k (present pieces)))
               @ [newline],
             ''END='' @ format_num float_repr (running_time (take (Suc k) (present pieces)))
               @ [newline],
             ''title=Chapter '' @ str_int (int k + 1) @ [newline, newline]])
          [0..<length (present pieces)])"
    by (simp add: createTempFiles_def createTempFiles_loop_eq Let_def comp_def
        chapter_block_def running_time_def add.commute del: upt_Suc)
  show "running_time [] = PyInt 0" by (simp add: running_time_def)
  show "running_time (take (Suc k) (present pieces))
           = PyFloat (fadd (to_float (running_time (take k (present pieces))))
                           (fmul (info_length (present pieces ! k)) (float_of_int 1000)))"
    if "k < length (present pieces)" for k
    using running_time_step [OF that] by (simp add: advance_def)
qed

lemma float_of_int_1000: "float_of_int 1000 = 1000"
  using float_of_int_small [of 1000] by simp

lemma fmul_1025: "fmul (1025 / 1024) 1000 = 128125 / 128"
proof -
  have "fl (1025 / 1024 * 1000) = of_int (128125 * 2 ^ 36) / 2 ^ 43"
  proof (rule fl_eval)
    have "(1025 / 1024 * 1000 * 2 ^ 43 :: rat) = of_int (128125 * 2 ^ 36)" by simp
    then show "round_half_even (1025 / 1024 * 1000 * 2 ^ 43) = 128125 * 2 ^ 36"
      by (simp only: rhe_of_int)
  qed simp_all
  then show ?thesis by (simp add: fmul_def)
qed

lemma fadd_0_1000: "fadd 0 (128125 / 128) = 128125 / 128"
proof -
  have "fl (0 + 128125 / 128) = of_int (128125 * 2 ^ 36) / 2 ^ 43"
  proof (rule fl_eval)
    have "((0 + 128125 / 128) * 2 ^ 43 :: rat) = of_int (128125 * 2 ^ 36)" by simp
    then show "round_half_even ((0 + 128125 / 128) * 2 ^ 43) = 128125 * 2 ^ 36"
      by (simp only: rhe_of_int)
  qed simp_all
  then show ?thesis by (simp add: fadd_def)
qed

lemma advance_first:
  "advance (PyInt 0) \<lparr>filename = ''a.mp3'', info_length = 1025 / 1024\<rparr> = PyFloat (128125 / 128)"
  unfolding advance_def
  by (simp only: to_float.simps float_of_int_0 float_of_int_1000 piece.simps fmul_1025
      fadd_0_1000)

text \<open>
  Claim C5 as stated fails: the offsets are floats. A single chapter of 1.0009765625
  seconds ends at 1000.9765625, which is not a whole number of milliseconds.
\<close>

theorem createTempFiles_not_integer_counterexample:
  "createTempFiles_loop (PyInt 0) 1 [Some \<lparr>filename = ''a.mp3'', info_length = 1025 / 1024\<rparr>]
     = [\<lparr>concat_line = concat_file_line \<lparr>filename = ''a.mp3'', info_length = 1025 / 1024\<rparr>,
         chapter_start = PyInt 0,
         chapter_end = PyFloat (128125 / 128),
         chapter_number = 1\<rparr>]
   \<and> of_int \<lfloor>128125 / 128 :: rat\<rfloor> \<noteq> (128125 / 128 :: rat)"
proof -
  have "\<lfloor>128125 / 128 :: rat\<rfloor> = 1000" by (rule floor_unique) simp_all
  then show ?thesis by (simp add: advance_first)
qed

text \<open>The witness: the end of the first chapter of a list with a \<^verbatim>\<open>None\<close> entry.\<close>

theorem createTempFiles_manifest_witness:
  "running_time (take (Suc 0)
       (present [Some \<lparr>filename = ''a.mp3'', info_length = 1025 / 1024\<rparr>, None]))
     = PyFloat (128125 / 128)"
proof -
  have "running_time (take 0
       (present [Some \<lparr>filename = ''a.mp3'', info_length = 1025 / 1024\<rparr>, None])) = PyInt 0"
    by (simp add: running_time_def)
  then show ?thesis
    using createTempFiles_manifest [of "\<lambda>x. []"
        "[Some \<lparr>filename = ''a.mp3'', info_length = 1025 / 1024\<rparr>, None]"]
    by (simp add: float_of_int_0 float_of_int_1000 fmul_1025 fadd_0_1000)
qed

section \<open>Properties of the track-number ordering\<close>

lemma py_index_update [simp]: "py_index (xs[j := v]) i = py_index xs i"
  by (simp add: py_index_def)

lemma py_index_less: "py_index xs i = Some k \<Longrightarrow> k < length xs"
  by (auto simp: py_index_def Let_def split: if_splits)

lemma track_number_has_tag: "track_number t = Inr n \<Longrightarrow> tags t ''tracknumber'' \<noteq> None"
  by (auto simp: track_number_def split: option.splits)

lemma single_disk_loop_append:
  "single_disk_loop (xs @ ys) chapters =
    (case single_disk_loop xs chapters of
       Inl e \<Rightarrow> Inl e
     | Inr chapters' \<Rightarrow> single_disk_loop ys chapters')"
  by (induction xs arbitrary: chapters) (auto split: option.splits sum.splits)

lemma occupied_slot_aborts:
  "t \<in> set ts \<Longrightarrow> track_number t = Inr n \<Longrightarrow> py_index chapters n = Some k
    \<Longrightarrow> chapters ! k \<noteq> None \<Longrightarrow> \<exists>e. single_disk_loop ts chapters = Inl e"
proof (induction ts arbitrary: chapters)
  case Nil
  then show ?case by simp
next
  case (Cons u us)
  show ?case
  proof (cases "single_disk_loop (u # us) chapters")
    case (Inl e)
    then show ?thesis by blast
  next
    case (Inr result)
    then obtain vs m j where u: "tags u ''tracknumber'' = Some vs" "track_number u = Inr m"
        "py_index chapters m = Some j" "chapters ! j = None"
        and rest: "single_disk_loop us (chapters[j := Some u]) = Inr result"
      by (auto split: option.splits sum.splits if_splits)
    have "u \<noteq> t"
    proof
      assume "u = t"
      then have "j = k" using u(2,3) Cons.prems(2,3) by simp
      then show False using u(4) Cons.prems(4) by simp
    qed
    then have mem: "t \<in> set us" using Cons.prems(1) by simp
    have k: "k < length chapters" using Cons.prems(3) by (rule py_index_less)
    have occ: "(chapters[j := Some u]) ! k \<noteq> None"
      using Cons.prems(4) k by (cases "j = k") simp_all
    have "\<exists>e. single_disk_loop us (chapters[j := Some u]) = Inl e"
      using mem Cons.prems(2) _ occ by (rule Cons.IH) (simp add: Cons.prems(3))
    then show ?thesis using rest by simp
  qed
qed

lemma same_number_aborts:
  assumes "i < j" "j < length tracks"
    and "track_number (tracks ! i) = Inr n" "track_number (tracks ! j) = Inr n"
  shows "\<exists>e. single_disk_loop tracks chapters = Inl e"
proof -
  define pre where "pre = take i tracks"
  define ti where "ti = tracks ! i"
  define post where "post = drop (Suc i) tracks"
  have i: "i < length tracks" using assms(1,2) by simp
  have split: "tracks = pre @ ti # post"
    unfolding pre_def ti_def post_def using i by (rule id_take_nth_drop)
  have "post ! (j - Suc i) = tracks ! j"
    unfolding post_def using assms(1,2) by simp
  moreover have "j - Suc i < length post" unfolding post_def using assms(1,2) by simp
  ultimately have mem: "tracks ! j \<in> set post" by (metis nth_mem)
  show ?thesis
  proof (cases "single_disk_loop pre chapters")
    case (Inl e)
    then show ?thesis by (simp add: split single_disk_loop_append)
  next
    case (Inr ch1)
    have tag: "tags ti ''tracknumber'' \<noteq> None"
      using assms(3) unfolding ti_def by (rule track_number_has_tag)
    have tn: "track_number ti = Inr n" using assms(3) by (simp add: ti_def)
    show ?thesis
    proof (cases "py_index ch1 n")
      case None
      then show ?thesis using Inr tag tn
        by (auto simp: split single_disk_loop_append)
    next
      case (Some k)
      show ?thesis
      proof (cases "ch1 ! k = None")
        case False
        then show ?thesis using Inr tag tn Some
          by (auto simp: split single_disk_loop_append)
      next
        case True
        have k: "k < length ch1" using Some by (rule py_index_less)
        have "\<exists>e. single_disk_loop post (ch1[k := Some ti]) = Inl e"
          using mem assms(4)
        proof (rule occupied_slot_aborts)
          show "py_index (ch1[k := Some ti]) n = Some k" using Some by simp
          show "(ch1[k := Some ti]) ! k \<noteq> None" using k by simp
        qed
        then show ?thesis using Inr tag tn Some True
          by (auto simp: split single_disk_loop_append)
      qed
    qed
  qed
qed

lemma read_tracks_all_ok:
  "map snd files = map ReadOk ts \<Longrightarrow> list_all (\<lambda>t. other_disc t = Inr False) ts
    \<Longrightarrow> read_tracks resolve settings folderPath st files (acc, multi)
      = (Inr (Inr (acc @ ts, multi)), st)"
proof (induction files arbitrary: ts acc)
  case Nil
  then show ?case by simp
next
  case (Cons f files)
  obtain fname r where f: "f = (fname, r)" by (cases f)
  from Cons.prems(1) f obtain t ts' where ts: "ts = t # ts'" "r = ReadOk t"
    "map snd files = map ReadOk ts'" by (cases ts) auto
  have ok: "other_disc t = Inr False" "list_all (\<lambda>t. other_disc t = Inr False) ts'"
    using Cons.prems(2) ts(1) by simp_all
  show ?case using Cons.IH [OF ts(3) ok(2), of "acc @ [t]"] f ts(1,2) ok(1) by simp
qed

text \<open>
  Claim C9. In single-disc mode, when two of the tracks declare the same track number,
  \<^verbatim>\<open>orderByTrackNumber\<close> returns the empty list (the second of them finds its slot taken,
  unless the loop has stopped before). \<^verbatim>\<open>orderFiles\<close>, for files that can all be read and
  that declare no disc other than 1, then answers with the title-based ordering of the
  same tracks, and fails the folder only when that is empty too (returning \<^verbatim>\<open>[]\<close> after
  \<^verbatim>\<open>failBook\<close>, or passing on the exception that \<^verbatim>\<open>failBook\<close> raises).
\<close>

theorem duplicate_track_number_falls_back:
  assumes "i < j" "j < length tracks"
    and "track_number (tracks ! i) = Inr n" "track_number (tracks ! j) = Inr n"
  shows "orderByTrackNumber tracks False = []
    \<and> (map snd files = map ReadOk tracks \<and> list_all (\<lambda>t. other_disc t = Inr False) tracks
        \<longrightarrow> orderFiles resolve settings orderByTitle st files folderPath =
            (case orderByTitle tracks of
               Inl e \<Rightarrow> (Inl e, st)
             | Inr byTitle \<Rightarrow>
                 if byTitle = []
                 then (if folderPath \<noteq> []
                       then then_return
                              (failBook resolve settings st folderPath
                                 (Some ''Failed to order files'') (Some (map fst files))) []
                       else (Inr [], st))
                 else (Inr (map Some byTitle), st)))"
proof (intro conjI impI)
  obtain e where "single_disk_loop tracks (replicate (length tracks + 1) None) = Inl e"
    using same_number_aborts [OF assms] by blast
  then show empty: "orderByTrackNumber tracks False = []"
    by (simp add: orderByTrackNumber_def)
  assume "map snd files = map ReadOk tracks \<and> list_all (\<lambda>t. other_disc t = Inr False) tracks"
  then have "read_tracks resolve settings folderPath st files ([], False)
      = (Inr (Inr ([] @ tracks, False)), st)"
    by (intro read_tracks_all_ok) simp_all
  then show "orderFiles resolve settings orderByTitle st files folderPath =
            (case orderByTitle tracks of
               Inl e \<Rightarrow> (Inl e, st)
             | Inr byTitle \<Rightarrow>
                 if byTitle = []
                 then (if folderPath \<noteq> []
                       then then_return
                              (failBook resolve settings st folderPath
                                 (Some ''Failed to order files'') (Some (map fst files))) []
                       else (Inr [], st))
                 else (Inr (map Some byTitle), st))"
    using empty by (simp add: orderFiles_def split: sum.splits)
qed

text \<open>
  The witness: two files tagged with the track numbers \<^verbatim>\<open>1\<close> and \<^verbatim>\<open>1/2\<close>, and a
  title ordering that reverses the list.
\<close>

theorem duplicate_track_number_falls_back_witness:
  "orderByTrackNumber
      [\<lparr>track_filename = ''01 Intro.mp3'', tags = [''tracknumber'' \<mapsto> [''1'']]\<rparr>,
       \<lparr>track_filename = ''02 Middle.mp3'', tags = [''tracknumber'' \<mapsto> [''1/2'']]\<rparr>] False = []
   \<and> orderFiles (\<lambda>p. p) (Some \<lparr>move = False\<rparr>) (\<lambda>ts. Inr (rev ts)) empty_status
        [(''/in/Book/01 Intro.mp3'',
          ReadOk \<lparr>track_filename = ''01 Intro.mp3'', tags = [''tracknumber'' \<mapsto> [''1'']]\<rparr>),
         (''/in/Book/02 Middle.mp3'',
          ReadOk \<lparr>track_filename = ''02 Middle.mp3'', tags = [''tracknumber'' \<mapsto> [''1/2'']]\<rparr>)]
        ''/in/Book''
     = (Inr [Some \<lparr>track_filename = ''02 Middle.mp3'', tags = [''tracknumber'' \<mapsto> [''1/2'']]\<rparr>,
             Some \<lparr>track_filename = ''01 Intro.mp3'', tags = [''tracknumber'' \<mapsto> [''1'']]\<rparr>],
        empty_status)"
proof -
  define a where "a = \<lparr>track_filename = ''01 Intro.mp3'', tags = [''tracknumber'' \<mapsto> [''1'']]\<rparr>"
  define b where "b = \<lparr>track_filename = ''02 Middle.mp3'', tags = [''tracknumber'' \<mapsto> [''1/2'']]\<rparr>"
  have na: "track_number ([a, b] ! 0) = Inr 1" unfolding a_def b_def by code_simp
  have nb: "track_number ([a, b] ! 1) = Inr 1" unfolding a_def b_def by code_simp
  have da: "other_disc a = Inr False" unfolding a_def by code_simp
  have db: "other_disc b = Inr False" unfolding b_def by code_simp
  have "(0::nat) < 1" "1 < length [a, b]" by simp_all
  from duplicate_track_number_falls_back [OF this na nb,
      of "[(''/in/Book/01 Intro.mp3'', ReadOk a), (''/in/Book/02 Middle.mp3'', ReadOk b)]"
        "\<lambda>p. p" "Some \<lparr>move = False\<rparr>" "\<lambda>ts. Inr (rev ts)" empty_status "''/in/Book''"]
  show ?thesis unfolding a_def [symmetric] b_def [symmetric] using da db by simp
qed

section \<open>cleanAuthorForPath: trailing credentials\<close>

lemma cleanAuthorForPath_MD:
  "cleanAuthorForPath ''Daniel J. Siegel MD'' = ''Daniel J. Siegel''"
  by code_simp

lemma cleanAuthorForPath_M_D:
  "cleanAuthorForPath ''Daniel J. Siegel M.D.'' = ''Daniel J. Siegel''"
  by code_simp

lemma cleanAuthorForPath_MA_MFT:
  "cleanAuthorForPath ''Jane Doe MA MFT'' = ''Jane Doe''"
  by code_simp

lemma strip_credentials_fixed_point:
  "strip (re_sub credentials [] (strip_credentials c)) = strip_credentials c"
proof (induction c rule: strip_credentials.induct)
  case (1 cleaned)
  show ?case
  proof (cases "strip (re_sub credentials [] cleaned) = cleaned")
    case True
    then have "strip_credentials cleaned = cleaned"
      by (subst strip_credentials.simps) (simp add: Let_def)
    then show ?thesis using True by simp
  next
    case False
    then have "strip_credentials cleaned = strip_credentials (strip (re_sub credentials [] cleaned))"
      by (subst strip_credentials.simps) (simp add: Let_def)
    then show ?thesis using "1.IH" [OF refl False] by simp
  qed
qed

text \<open>Claim C8. The credential loop of \<^verbatim>\<open>cleanAuthorForPath\<close> always ends, and on a text where one
  more pass (delete a trailing credential, strip the blanks) changes nothing. On the inputs
  \<^verbatim>\<open>Daniel J. Siegel MD\<close> and \<^verbatim>\<open>Daniel J. Siegel M.D.\<close> the function returns
  \<^verbatim>\<open>Daniel J. Siegel\<close>, and on \<^verbatim>\<open>Jane Doe MA MFT\<close>, with two stacked credentials, it returns
  \<^verbatim>\<open>Jane Doe\<close>.\<close>

theorem cleanAuthorForPath_strips_credentials:
  "cleanAuthorForPath ''Daniel J. Siegel MD'' = ''Daniel J. Siegel''
   \<and> cleanAuthorForPath ''Daniel J. Siegel M.D.'' = ''Daniel J. Siegel''
   \<and> cleanAuthorForPath ''Jane Doe MA MFT'' = ''Jane Doe''
   \<and> strip (re_sub credentials [] (strip_credentials c)) = strip_credentials c"
  using cleanAuthorForPath_MD cleanAuthorForPath_M_D cleanAuthorForPath_MA_MFT
    strip_credentials_fixed_point [of c]
  by blast


end
